theory Spec2Isabelle
  imports Main "HOL-Library.Word" "HOL-Library.AList"
begin

section \<open>Errors (errors.go)\<close>

text \<open>
  The package's sentinel errors are the values created by \<open>errors.New\<close> in errors.go.
  Go compares them by identity, so each one is a constructor of its own. The last one is
  the \<open>ErrInvalidJSON\<close> of package \<open>request\<close>, a value of its own.
\<close>

datatype sentinel =
    ErrInitialisingClient
  | ErrInitialisingRequest
  | ErrInvalidJSON
  | ErrInvalidRequestHeader
  | ErrInvalidURL
  | ErrMaxRetriesExceeded
  | ErrNoResponseBody
  | ErrReadingResponseBody
  | ErrUnexpectedStatusCode
  | ErrCannotChangeExpectations
  | ErrUnexpectedRequest
  | request_ErrInvalidJSON

text \<open>
  An error value is a sentinel, an error that carries only a message (\<open>fmt.Errorf\<close>
  without \<open>%w\<close>, or an error of another package such as a transport failure), or an
  error that wraps others: \<open>fmt.Errorf\<close> and \<open>errorcontext.Errorf\<close> with \<open>%w\<close> verbs
  (the string is the format with its other arguments filled in), \<open>errors.Join\<close>,
  \<open>errorcontext.Wrap\<close>. \<open>MockExpectationsError\<close> is the struct of errors.go: it holds
  the mock's name and its list of errors and has no \<open>Unwrap\<close> method.
\<close>

datatype err =
    Sentinel sentinel
  | Plain string
  | Errorf string "err list"
  | Join "err list"
  | Wrap "err list"
  | MockExpectationsError string "err list"

text \<open>\<open>errors.Is\<close>: the error is the target, or one of the errors it wraps is.\<close>

fun errors_Is :: "err \<Rightarrow> err \<Rightarrow> bool"
  and errors_Is_any :: "err list \<Rightarrow> err \<Rightarrow> bool" where
  "errors_Is (Errorf m es) t = (Errorf m es = t \<or> errors_Is_any es t)"
| "errors_Is (Join es) t = (Join es = t \<or> errors_Is_any es t)"
| "errors_Is (Wrap es) t = (Wrap es = t \<or> errors_Is_any es t)"
| "errors_Is (Sentinel s) t = (Sentinel s = t)"
| "errors_Is (Plain m) t = (Plain m = t)"
| "errors_Is (MockExpectationsError n es) t = (MockExpectationsError n es = t)"
| "errors_Is_any [] t = False"
| "errors_Is_any (e # es) t = (errors_Is e t \<or> errors_Is_any es t)"

text \<open>\<open>errors.Join\<close> drops the nil errors and is nil when none is left.\<close>

definition errors_Join :: "err option list \<Rightarrow> err option" where
  "errors_Join errs =
     (let es = List.map_filter id errs in if es = [] then None else Some (Join es))"

text \<open>
  A Go call either returns or panics. The value of a panic is an error (the
  \<open>panic(fmt.Errorf(...))\<close> of the mock) or a runtime error (an index out of range, a
  nil dereference).
\<close>

datatype panic = PanicError err | RuntimeError string

datatype 'a outcome = Returns 'a | Panics panic

section \<open>Requests and responses (net/http)\<close>

text \<open>
  \<open>[]byte\<close> is a \<open>string\<close> (a list of 8-bit characters). An \<open>http.Header\<close> is a Go
  map from keys to lists of values; it is an association list here, read with
  \<open>map_of\<close>, so that the loops over a header have an order to run in. The map of a
  request is not nil (\<open>http.NewRequest\<close> makes one), nor is its URL, which is kept as
  the text \<open>URL.String()\<close> gives.

  A body is an \<open>io.ReadCloser\<close>: nil, the sentinel \<open>http.NoBody\<close>, or a reader.

  The body of a response comes fresh from the wrapped client and \<open>Do\<close> reads it once, so
  its reader is a value: a live stream that yields some bytes and then ends with EOF or
  fails, or \<open>io.NopCloser(bytes.NewReader(b))\<close>.

  The body of a request is shared through the pointer to the request: the caller, the
  wrapped client and every expectation of a mock that recorded the request hold the same
  reader, and reading it uses it up. Its reader is therefore an address, and a store of
  type \<open>bodies\<close> gives the bytes each reader still yields.
\<close>

type_synonym header = "(string \<times> string list) list"

type_synonym addr = nat

type_synonym bodies = "addr \<Rightarrow> string"

datatype 'r body =
    NilBody
  | NoBody
  | Reader 'r

datatype stream =
    Stream string "err option"
  | NopCloser string

record request =
  Method :: string
  URL :: string
  Header :: header
  Body :: "addr body"

record response =
  Status :: string
  StatusCode :: int
  RespHeader :: header
  RespBody :: "stream body"
  ContentLength :: int

text \<open>
  \<open>io.ReadAll\<close> on the body of a response: the bytes read and the error that ended the
  read, if not EOF.
\<close>

fun ioReadAll :: "stream body \<Rightarrow> (string \<times> err option) outcome" where
  "ioReadAll NilBody = Panics (RuntimeError ''nil pointer dereference'')"
| "ioReadAll NoBody = Returns ([], None)"
| "ioReadAll (Reader (Stream b e)) = Returns (b, e)"
| "ioReadAll (Reader (NopCloser b)) = Returns (b, None)"

text \<open>
  \<open>io.ReadAll\<close> on the body of a request, with the error of the read dropped as the one
  caller does: the bytes the reader still had, and the store in which the reader is at
  its end. Reading \<open>http.NoBody\<close> changes nothing; a nil body panics.
\<close>

fun read_request_body :: "bodies \<Rightarrow> addr body \<Rightarrow> string outcome \<times> bodies" where
  "read_request_body bs NilBody = (Panics (RuntimeError ''nil pointer dereference''), bs)"
| "read_request_body bs NoBody = (Returns [], bs)"
| "read_request_body bs (Reader p) = (Returns (bs p), bs(p := []))"

section \<open>Decimal numbers and JSON arrays of integers (strconv, encoding/json)\<close>

type_synonym uint = "64 word"

definition is_digit :: "char \<Rightarrow> bool" where
  "is_digit c = (48 \<le> (of_char c :: nat) \<and> (of_char c :: nat) \<le> 57)"

definition digit_val :: "char \<Rightarrow> nat" where
  "digit_val c = of_char c - 48"

definition digits_value :: "string \<Rightarrow> nat" where
  "digits_value ds = foldl (\<lambda>n c. 10 * n + digit_val c) 0 ds"

text \<open>
  \<open>strconv.Atoi\<close> on a 64-bit platform: an optional sign, then one or more decimal
  digits, and the value must fit an \<open>int\<close>.
\<close>

definition Atoi :: "string \<Rightarrow> err + int" where
  "Atoi s =
     (let neg = (s \<noteq> [] \<and> hd s = CHR ''-'');
          ds = (if s \<noteq> [] \<and> (hd s = CHR ''-'' \<or> hd s = CHR ''+'') then tl s else s)
      in if ds = [] \<or> \<not> list_all is_digit ds
         then Inl (Plain ''strconv.Atoi: invalid syntax'')
         else let n = int (digits_value ds)
              in if neg then (if n > 2 ^ 63 then Inl (Plain ''strconv.Atoi: value out of range'')
                              else Inr (- n))
                 else (if n > 2 ^ 63 - 1 then Inl (Plain ''strconv.Atoi: value out of range'')
                       else Inr n))"

text \<open>\<open>strconv.Itoa\<close> and the \<open>%d\<close> verb of \<open>fmt\<close>.\<close>

function digits_of :: "nat \<Rightarrow> string" where
  "digits_of n =
     (if n < 10 then [''0123456789'' ! n] else digits_of (n div 10) @ [''0123456789'' ! (n mod 10)])"
  by pat_completeness auto
termination
  by (relation "measure id") auto

declare digits_of.simps [simp del]

definition Itoa :: "int \<Rightarrow> string" where
  "Itoa i = (if i < 0 then CHR ''-'' # digits_of (nat (- i)) else digits_of (nat i))"

text \<open>
  \<open>json.Unmarshal\<close> into a slice of integers. The input is cut into tokens: the
  brackets, the comma, and the runs of other characters between them and the JSON white
  space. The decoder accepts \<open>null\<close> (the slice becomes nil) and an array whose elements
  are \<open>null\<close> or integer literals; every other input is an error. An element \<open>null\<close>
  leaves the element of the slice at that index as it was (zero when the slice had none).
\<close>

datatype tok = LBr | RBr | Comma | Word string

definition is_space :: "char \<Rightarrow> bool" where
  "is_space c = (c = CHR '' '' \<or> c = CHR 0x09 \<or> c = CHR 0x0A \<or> c = CHR 0x0D)"

definition flush :: "string \<Rightarrow> tok list" where
  "flush w = (if w = [] then [] else [Word w])"

fun tokenize :: "string \<Rightarrow> string \<Rightarrow> tok list" where
  "tokenize w [] = flush w"
| "tokenize w (c # cs) =
     (if is_space c then flush w @ tokenize [] cs
      else if c = CHR ''['' then flush w @ LBr # tokenize [] cs
      else if c = CHR '']'' then flush w @ RBr # tokenize [] cs
      else if c = CHR '','' then flush w @ Comma # tokenize [] cs
      else tokenize (w @ [c]) cs)"

datatype elem = Null | Lit bool nat

definition classify :: "string \<Rightarrow> elem option" where
  "classify w =
     (if w = ''null'' then Some Null
      else let neg = (w \<noteq> [] \<and> hd w = CHR ''-'');
               ds = (if neg then tl w else w)
           in if ds \<noteq> [] \<and> list_all is_digit ds \<and> (hd ds \<noteq> CHR ''0'' \<or> length ds = 1)
              then Some (Lit neg (digits_value ds)) else None)"

fun elems :: "tok list \<Rightarrow> elem list option" where
  "elems [Word w, RBr] = map_option (\<lambda>e. [e]) (classify w)"
| "elems (Word w # Comma # ts) =
     (case classify w of None \<Rightarrow> None
      | Some e \<Rightarrow> map_option ((#) e) (elems ts))"
| "elems ts = None"

text \<open>The value of a JSON text: nil for \<open>null\<close>, or the elements of the array.\<close>

definition json_value :: "string \<Rightarrow> elem list option option" where
  "json_value s =
     (case tokenize [] s of
        [Word w] \<Rightarrow> (if w = ''null'' then Some None else None)
      | [LBr, RBr] \<Rightarrow> Some (Some [])
      | LBr # ts \<Rightarrow> map_option Some (elems ts)
      | _ \<Rightarrow> None)"

fun store :: "(bool \<Rightarrow> nat \<Rightarrow> 'a option) \<Rightarrow> 'a \<Rightarrow> 'a list \<Rightarrow> elem list \<Rightarrow> 'a list option" where
  "store conv zero init [] = Some []"
| "store conv zero init (e # es) =
     (let old = (case init of [] \<Rightarrow> zero | x # _ \<Rightarrow> x);
          v = (case e of Null \<Rightarrow> Some old | Lit neg n \<Rightarrow> conv neg n)
      in case v of None \<Rightarrow> None
         | Some x \<Rightarrow> map_option ((#) x) (store conv zero (tl init) es))"

definition conv_int :: "bool \<Rightarrow> nat \<Rightarrow> int option" where
  "conv_int neg n =
     (if neg then (if int n > 2 ^ 63 then None else Some (- int n))
      else (if int n > 2 ^ 63 - 1 then None else Some (int n)))"

definition conv_uint :: "bool \<Rightarrow> nat \<Rightarrow> uint option" where
  "conv_uint neg n = (if neg \<or> n \<ge> 2 ^ 64 then None else Some (of_nat n))"

definition json_error :: err where
  "json_error = Plain ''json: cannot unmarshal''"

text \<open>
  A slice is \<open>None\<close> when nil. The first argument is the slice the caller passes in,
  the result is what it holds after a successful call.
\<close>

definition Unmarshal_ints :: "int list \<Rightarrow> string \<Rightarrow> err + int list option" where
  "Unmarshal_ints init s =
     (case json_value s of
        None \<Rightarrow> Inl json_error
      | Some None \<Rightarrow> Inr None
      | Some (Some es) \<Rightarrow>
          (case store conv_int 0 init es of None \<Rightarrow> Inl json_error | Some xs \<Rightarrow> Inr (Some xs)))"

definition Unmarshal_uints :: "uint list \<Rightarrow> string \<Rightarrow> err + uint list option" where
  "Unmarshal_uints init s =
     (case json_value s of
        None \<Rightarrow> Inl json_error
      | Some None \<Rightarrow> Inr None
      | Some (Some es) \<Rightarrow>
          (case store conv_uint 0 init es of None \<Rightarrow> Inl json_error | Some xs \<Rightarrow> Inr (Some xs)))"

fun join_commas :: "string list \<Rightarrow> string" where
  "join_commas [] = []"
| "join_commas [x] = x"
| "join_commas (x # y # ys) = x @ '','' @ join_commas (y # ys)"

definition Marshal_ints :: "int list option \<Rightarrow> string" where
  "Marshal_ints acc =
     (case acc of None \<Rightarrow> ''null''
      | Some xs \<Rightarrow> ''['' @ join_commas (map Itoa xs) @ '']'')"

text \<open>The characters that the tokens above keep inside a word.\<close>

definition plain_char :: "char \<Rightarrow> bool" where
  "plain_char c = (\<not> is_space c \<and> c \<noteq> CHR ''['' \<and> c \<noteq> CHR '']'' \<and> c \<noteq> CHR '','')"

section \<open>The execution engine (barrel.go)\<close>

text \<open>The reserved header keys of package \<open>request\<close>.\<close>

definition MaxRetriesHeader :: string where
  "MaxRetriesHeader = ''X-Blugnu-Http-Max-Retries''"

definition AcceptStatusHeader :: string where
  "AcceptStatusHeader = ''X-Blugnu-Http-Accept-Status''"

definition ResponseBodyRequiredHeader :: string where
  "ResponseBodyRequiredHeader = ''X-Blugnu-Http-Response-Body-Required''"

definition StreamResponseHeader :: string where
  "StreamResponseHeader = ''X-Blugnu-Http-Stream-Response''"

definition reserved_headers :: "string list" where
  "reserved_headers =
     [MaxRetriesHeader, AcceptStatusHeader, ResponseBodyRequiredHeader, StreamResponseHeader]"

text \<open>
  The wrapped client is any value with the method \<open>Do(*http.Request) (*http.Response, error)\<close>.
  It is a step function on a state of its own: it takes the request as it is at the time
  of the call and gives back the response pointer (nil or not), the error (nil or not) and
  its next state. It reads the request and does not change it.
\<close>

type_synonym 's transport = "'s \<Rightarrow> request \<Rightarrow> (response option \<times> err option) \<times> 's"

record 's client =
  name :: string
  url :: string
  wrapped :: "'s transport"
  maxRetries :: uint

text \<open>
  \<open>client.do\<close>: the loop that submits the request until the wrapped client returns no
  error or the retries are used up. \<open>n\<close> is the loop's counter, \<open>retries\<close> at the start.
  A response pointer that is nil with a nil error is dereferenced by \<open>r.StatusCode\<close>.
\<close>

function do_loop :: "'s client \<Rightarrow> request \<Rightarrow> uint \<Rightarrow> uint list \<Rightarrow> uint \<Rightarrow> 's
    \<Rightarrow> (response option \<times> err option) outcome \<times> 's" where
  "do_loop c rq retries accept n s =
     (let res = wrapped c s rq; r = fst (fst res); err = snd (fst res); s' = snd res
      in if err \<noteq> None then
           (if retries = 0 then (Returns (r, err), s')
            else if n = 0 then
              (Returns (r, Some (Wrap [Sentinel ErrMaxRetriesExceeded, the err])), s')
            else do_loop c rq retries accept (n - 1) s')
         else if r = None then (Panics (RuntimeError ''nil pointer dereference''), s')
         else if list_ex (\<lambda>sc. (word_of_int (StatusCode (the r)) :: uint) = sc) accept
           then (Returns (r, None), s')
         else (Returns (r, Some (Errorf (''%w: '' @ Status (the r))
                                   [Sentinel ErrUnexpectedStatusCode])), s'))"
  by pat_completeness auto
termination
  by (relation "measure (\<lambda>(c, rq, retries, accept, n, s). unat n)")
     (auto simp: unat_minus_one word_neq_0_conv unat_gt_0)

declare do_loop.simps [simp del]

definition do :: "'s client \<Rightarrow> request \<Rightarrow> uint \<Rightarrow> uint list \<Rightarrow> 's
    \<Rightarrow> (response option \<times> err option) outcome \<times> 's" where
  "do c rq retries accept s = do_loop c rq retries accept retries s"

text \<open>
  The closure \<open>parse\<close> of \<open>parseRequestHeaders\<close>. \<open>fn\<close> gives the new value of the
  variable the closure assigns, or an error. The deferred \<open>delete\<close> runs on every way
  out, also when \<open>s[0]\<close> panics on a key that holds an empty list of values. The result
  is the outcome and the request as the call leaves it.
\<close>

definition parse :: "request \<Rightarrow> string \<Rightarrow> (string \<Rightarrow> err + 'a) \<Rightarrow> 'a
    \<Rightarrow> (err option \<times> 'a) outcome \<times> request" where
  "parse rq hdr fn cur =
     (let rq' = rq\<lparr>Header := AList.delete hdr (Header rq)\<rparr>
      in case map_of (Header rq) hdr of
           None \<Rightarrow> (Returns (None, cur), rq')
         | Some [] \<Rightarrow> (Panics (RuntimeError ''index out of range [0] with length 0''), rq')
         | Some (s # _) \<Rightarrow>
             (case fn s of
                Inl err \<Rightarrow>
                  (Returns (Some (Errorf (''%w: '' @ hdr @ '': %w'')
                                    [Sentinel ErrInvalidRequestHeader, err]), cur), rq')
              | Inr v \<Rightarrow> (Returns (None, v), rq')))"

record directives =
  d_maxRetries :: uint
  d_acceptableStatusCodes :: "uint list"
  d_responseBodyRequired :: bool
  d_streamResponse :: bool

definition parse_maxRetries :: "string \<Rightarrow> err + uint" where
  "parse_maxRetries s = (case Atoi s of Inl err \<Rightarrow> Inl err | Inr i \<Rightarrow> Inr (word_of_int i))"

definition parse_acceptStatus :: "uint list \<Rightarrow> string \<Rightarrow> err + uint list" where
  "parse_acceptStatus cur s =
     (case Unmarshal_uints cur s of
        Inl err \<Rightarrow> Inl (Errorf ''%w: %w'' [Sentinel ErrInvalidJSON, err])
      | Inr None \<Rightarrow> Inr []
      | Inr (Some xs) \<Rightarrow> Inr xs)"

text \<open>
  \<open>client.parseRequestHeaders\<close>. The four headers are parsed in the source's order, each
  by its own call of \<open>parse\<close>, and the errors are joined. The directives are returned with
  the joined error; \<open>Do\<close>, the only caller, looks at them only when the error is nil, so
  a directive whose header failed to parse is given here as it was before the parse. A
  panic stops the function where it happens.
\<close>

definition parseRequestHeaders :: "'s client \<Rightarrow> request
    \<Rightarrow> (directives \<times> err option) outcome \<times> request" where
  "parseRequestHeaders c rq =
     (case parse rq MaxRetriesHeader parse_maxRetries (maxRetries c) of
        (Panics p, rq1) \<Rightarrow> (Panics p, rq1)
      | (Returns (e1, retries), rq1) \<Rightarrow>
     (case parse rq1 AcceptStatusHeader (parse_acceptStatus [200]) [200] of
        (Panics p, rq2) \<Rightarrow> (Panics p, rq2)
      | (Returns (e2, codes), rq2) \<Rightarrow>
     (case parse rq2 ResponseBodyRequiredHeader (\<lambda>s. Inr (s = ''true'')) False of
        (Panics p, rq3) \<Rightarrow> (Panics p, rq3)
      | (Returns (e3, required), rq3) \<Rightarrow>
     (case parse rq3 StreamResponseHeader (\<lambda>s. Inr (s = ''true'')) False of
        (Panics p, rq4) \<Rightarrow> (Panics p, rq4)
      | (Returns (e4, stream), rq4) \<Rightarrow>
          (Returns (\<lparr>d_maxRetries = retries, d_acceptableStatusCodes = codes,
                     d_responseBodyRequired = required, d_streamResponse = stream\<rparr>,
                    errors_Join [e1, e2, e3, e4]), rq4)))))"

text \<open>The closure \<open>handle\<close> of \<open>Do\<close>: the error with the client and the request named.\<close>

definition handle :: "'s client \<Rightarrow> request \<Rightarrow> response option \<Rightarrow> err
    \<Rightarrow> response option \<times> err option" where
  "handle c rq r err =
     (r, Some (Errorf (name c @ '': '' @ Method rq @ '' '' @ URL rq @ '': %w'') [err]))"

text \<open>
  \<open>client.Do\<close>. The result is the outcome, the request as \<open>Do\<close> leaves it (the caller
  holds the pointer) and the state of the wrapped client.
\<close>

definition Do :: "'s client \<Rightarrow> request \<Rightarrow> 's
    \<Rightarrow> (response option \<times> err option) outcome \<times> request \<times> 's" where
  "Do c rq s =
     (case parseRequestHeaders c rq of
        (Panics p, rq') \<Rightarrow> (Panics p, rq', s)
      | (Returns (d, Some err), rq') \<Rightarrow> (Returns (handle c rq' None err), rq', s)
      | (Returns (d, None), rq') \<Rightarrow>
          (case do c rq' (d_maxRetries d) (d_acceptableStatusCodes d) s of
             (Panics p, s') \<Rightarrow> (Panics p, rq', s')
           | (Returns (r, Some err), s') \<Rightarrow> (Returns (handle c rq' r err), rq', s')
           | (Returns (r, None), s') \<Rightarrow>
               if d_streamResponse d then (Returns (r, None), rq', s')
               else (case r of
                  None \<Rightarrow> (Panics (RuntimeError ''nil pointer dereference''), rq', s')
                | Some r0 \<Rightarrow>
                   (case ioReadAll (RespBody r0) of
                      Panics p \<Rightarrow> (Panics p, rq', s')
                    | Returns (body, err) \<Rightarrow>
                       (let r1 = r0\<lparr>ContentLength := 0, RespBody := NoBody\<rparr>
                        in if err \<noteq> None then
                             (Returns (handle c rq' (Some r1)
                                (Errorf ''response.Body: %w'' [the err])), rq', s')
                           else if length body = 0 \<and> d_responseBodyRequired d then
                             (Returns (handle c rq' (Some r1) (Sentinel ErrNoResponseBody)), rq', s')
                           else if length body = 0 then (Returns (Some r1, None), rq', s')
                           else (Returns (Some (r1\<lparr>ContentLength := int (length body),
                                                    RespBody := Reader (NopCloser body)\<rparr>), None),
                                 rq', s'))))))"

text \<open>
  A wrapped client that also keeps the list of its calls, in order, as a test double
  does: each entry is the request of the call and what the call returned. It answers as
  the client it wraps.
\<close>

type_synonym call = "request \<times> (response option \<times> err option)"

definition recording :: "'s transport \<Rightarrow> ('s \<times> call list) transport" where
  "recording t = (\<lambda>(s, log) rq. (fst (t s rq), (snd (t s rq), log @ [(rq, fst (t s rq))])))"

text \<open>A request that holds none of the four reserved headers.\<close>

definition no_reserved :: "request \<Rightarrow> bool" where
  "no_reserved rq = (\<forall>k \<in> set reserved_headers. map_of (Header rq) k = None)"

section \<open>The accept-status option (request/acceptStatus.go)\<close>

text \<open>\<open>append(acc, statusCodes...)\<close> on a slice that may be nil.\<close>

definition append_slice :: "int list option \<Rightarrow> int list \<Rightarrow> int list option" where
  "append_slice acc statusCodes =
     (case acc of
        None \<Rightarrow> (if statusCodes = [] then None else Some statusCodes)
      | Some xs \<Rightarrow> Some (xs @ statusCodes))"

text \<open>
  \<open>request.AcceptStatus(statusCodes...)\<close> applied to a request: the error it returns and
  the request as it leaves it. \<open>ErrInvalidJSON\<close> is here the sentinel of package
  \<open>request\<close>. \<open>h[0]\<close> panics when the header is present with no value.
\<close>

definition AcceptStatus :: "int list \<Rightarrow> request \<Rightarrow> err option outcome \<times> request" where
  "AcceptStatus statusCodes rq =
     (case map_of (Header rq) AcceptStatusHeader of
        Some [] \<Rightarrow> (Panics (RuntimeError ''index out of range [0] with length 0''), rq)
      | h \<Rightarrow>
         (case (case h of None \<Rightarrow> Inr (Some [200]) | Some hs \<Rightarrow> Unmarshal_ints [200] (hd hs)) of
            Inl err \<Rightarrow>
              (Returns (Some (Errorf ''request.AcceptStatus: %w''
                                [Errorf ''%w: %w'' [Sentinel request_ErrInvalidJSON, err]])), rq)
          | Inr acc \<Rightarrow>
              (Returns None,
               rq\<lparr>Header := AList.update AcceptStatusHeader
                             [Marshal_ints (append_slice acc statusCodes)] (Header rq)\<rparr>)))"

section \<open>The mock client (mockClient.go, mockRequest.go, mockResponse.go)\<close>

text \<open>
  \<open>mockResponse\<close>: the response an expectation is configured with. The map of headers
  is nil until a header is set.
\<close>

record mockResponse =
  resp_body :: string
  resp_headers :: "(string \<times> string) list option"
  statusCode :: "int option"
  Err :: "err option"

text \<open>
  \<open>MockRequest\<close>: an expectation. The pointers \<open>method\<close> (the field
  \<open>mr_method\<close> here), \<open>body\<close>, \<open>actual\<close> and \<open>Response\<close> are options; a nil value
  in the map \<open>headers\<close> is \<open>None\<close>. The map is an association list, in the order
  the loop over it runs. The back pointer to the client is left out.
\<close>

record MockRequest =
  index :: int
  mr_method :: "string option"
  body :: "string option"
  mr_url :: string
  headers :: "(string \<times> string option) list"
  actual :: "request option"
  isExpected :: bool
  Response :: "mockResponse option"

record mockClient =
  mc_name :: string
  hostname :: string
  expectations :: "MockRequest list"
  unexpected :: "request list"
  nxt :: int

definition firstExpectedRequest :: int where
  "firstExpectedRequest = 0"

definition noExpectedRequests :: int where
  "noExpectedRequests = - 1"

text \<open>
  What the mock takes from other packages is a parameter: the state of the
  \<open>httptest.ResponseRecorder\<close> after the handler has run (the header map, the code given
  to \<open>WriteHeader\<close> if it was called, the bytes written) and \<open>Result\<close>, which builds the
  response from it; the hook \<open>writeBody\<close>; and \<open>url.JoinPath\<close>.
\<close>

record recorder =
  rec_header :: header
  rec_code :: "int option"
  rec_body :: string

record env =
  Result :: "recorder \<Rightarrow> response"
  writeBody :: "string \<Rightarrow> err option"
  JoinPath :: "string \<Rightarrow> string \<Rightarrow> err + string"

definition NewMockClient :: "string \<Rightarrow> mockClient" where
  "NewMockClient n =
     \<lparr>mc_name = n, hostname = ''mock://hostname'', expectations = [], unexpected = [],
      nxt = noExpectedRequests\<rparr>"

text \<open>
  \<open>mockClient.defaultResponse\<close>. \<open>WriteHeader\<close> panics on a code outside 100..999. The
  error of the expectation is returned together with the response.
\<close>

definition defaultResponse :: "env \<Rightarrow> MockRequest \<Rightarrow> (response option \<times> err option) outcome" where
  "defaultResponse ev expected =
     (case Response expected of
        None \<Rightarrow>
          Returns (Some ((Result ev \<lparr>rec_header = [], rec_code = Some 200, rec_body = []\<rparr>)
                     \<lparr>RespBody := NoBody\<rparr>), None)
      | Some resp \<Rightarrow>
          (let hdr = (case resp_headers resp of None \<Rightarrow> []
                      | Some hs \<Rightarrow> foldl (\<lambda>h (k, v). AList.update k [v] h) [] hs)
           in if (case statusCode resp of None \<Rightarrow> False | Some sc \<Rightarrow> sc < 100 \<or> sc > 999)
              then Panics (RuntimeError ''invalid WriteHeader code'')
              else let bodyerr = (if length (resp_body resp) > 0 then writeBody ev (resp_body resp)
                                  else None)
                   in if bodyerr \<noteq> None then Returns (None, bodyerr)
                      else let response = Result ev \<lparr>rec_header = hdr, rec_code = statusCode resp,
                                                        rec_body = resp_body resp\<rparr>
                           in Returns (Some (if length (resp_body resp) = 0
                                             then response\<lparr>RespBody := NoBody\<rparr> else response),
                                       Err resp)))"

text \<open>
  \<open>mockClient.Do\<close>. The result is the outcome and the mock as the call leaves it. An index
  below zero panics.
\<close>

definition mock_Do :: "env \<Rightarrow> mockClient \<Rightarrow> request
    \<Rightarrow> (response option \<times> err option) outcome \<times> mockClient" where
  "mock_Do ev mock rq =
     (if nxt mock \<noteq> noExpectedRequests \<and> nxt mock < int (length (expectations mock)) then
        (if nxt mock < 0 then (Panics (RuntimeError ''index out of range''), mock)
         else let i = nat (nxt mock);
                  expected = (expectations mock ! i)\<lparr>actual := Some rq\<rparr>;
                  mock' = mock\<lparr>expectations := (expectations mock)[i := expected],
                               nxt := nxt mock + 1\<rparr>
              in if \<not> isExpected expected
                 then (Returns (None, Some (Sentinel ErrUnexpectedRequest)),
                       mock'\<lparr>unexpected := unexpected mock' @ [rq]\<rparr>)
                 else (defaultResponse ev expected, mock'))
      else (Returns (None, Some (Sentinel ErrUnexpectedRequest)),
            mock\<lparr>unexpected := unexpected mock @ [rq]\<rparr>))"

text \<open>\<open>mockClient.Expect\<close>: the new expectation, or a panic, and the mock afterwards.\<close>

definition Expect :: "env \<Rightarrow> mockClient \<Rightarrow> string \<Rightarrow> string \<Rightarrow> MockRequest outcome \<times> mockClient" where
  "Expect ev mock meth path =
     (if nxt mock > 0 then
        (Panics (PanicError (Errorf (mc_name mock @ '': %w: requests have already been made'')
                               [Sentinel ErrCannotChangeExpectations])), mock)
      else case JoinPath ev (hostname mock) path of
        Inl err \<Rightarrow>
          (Panics (PanicError (Errorf (''%w: client url ('' @ hostname mock
                                         @ '') and/or request path ('' @ path @ '') are invalid: %w'')
                                 [Sentinel ErrInvalidURL, err])), mock)
      | Inr fqu \<Rightarrow>
          (let rq = \<lparr>index = int (length (expectations mock)), mr_method = Some meth, body = None,
                      mr_url = fqu, headers = [], actual = None, isExpected = True,
                      Response = None\<rparr>;
               mock1 = mock\<lparr>expectations := expectations mock @ [rq]\<rparr>
           in (Returns rq, if length (expectations mock1) = 1 then mock1\<lparr>nxt := 0\<rparr> else mock1)))"

definition ExpectGet :: "env \<Rightarrow> mockClient \<Rightarrow> string \<Rightarrow> MockRequest outcome \<times> mockClient" where
  "ExpectGet ev mock path = Expect ev mock ''GET'' path"

definition ExpectPost :: "env \<Rightarrow> mockClient \<Rightarrow> string \<Rightarrow> MockRequest outcome \<times> mockClient" where
  "ExpectPost ev mock path = Expect ev mock ''POST'' path"

definition ExpectPut :: "env \<Rightarrow> mockClient \<Rightarrow> string \<Rightarrow> MockRequest outcome \<times> mockClient" where
  "ExpectPut ev mock path = Expect ev mock ''PUT'' path"

definition ExpectPatch :: "env \<Rightarrow> mockClient \<Rightarrow> string \<Rightarrow> MockRequest outcome \<times> mockClient" where
  "ExpectPatch ev mock path = Expect ev mock ''PATCH'' path"

definition ExpectDelete :: "env \<Rightarrow> mockClient \<Rightarrow> string \<Rightarrow> MockRequest outcome \<times> mockClient" where
  "ExpectDelete ev mock path = Expect ev mock ''DELETE'' path"

definition Reset :: "mockClient \<Rightarrow> mockClient" where
  "Reset mock = mock\<lparr>expectations := [], unexpected := [], nxt := noExpectedRequests\<rparr>"

text \<open>
  The methods that configure an expectation work through the pointer \<open>Expect\<close> returned;
  in the mock it is the expectation at its \<open>index\<close>.
\<close>

definition WillNotBeCalled :: "MockRequest \<Rightarrow> MockRequest" where
  "WillNotBeCalled rq = rq\<lparr>isExpected := False\<rparr>"

definition WithBody :: "string \<Rightarrow> MockRequest \<Rightarrow> MockRequest" where
  "WithBody b rq = rq\<lparr>body := Some b\<rparr>"

definition WithNonCanonicalHeader :: "string \<Rightarrow> string list \<Rightarrow> MockRequest \<Rightarrow> MockRequest" where
  "WithNonCanonicalHeader k v rq =
     rq\<lparr>headers := AList.update k (case v of [] \<Rightarrow> None | kv # _ \<Rightarrow> Some kv) (headers rq)\<rparr>"

definition configure :: "nat \<Rightarrow> (MockRequest \<Rightarrow> MockRequest) \<Rightarrow> mockClient \<Rightarrow> mockClient" where
  "configure i f mock =
     (if i < length (expectations mock)
      then mock\<lparr>expectations := (expectations mock)[i := f (expectations mock ! i)]\<rparr>
      else mock)"

subsection \<open>Checking the expectations (mockRequest.go)\<close>

text \<open>A panic in a step ends the steps after it.\<close>

definition obind :: "'a outcome \<Rightarrow> ('a \<Rightarrow> 'b outcome) \<Rightarrow> 'b outcome" where
  "obind m f = (case m of Panics p \<Rightarrow> Panics p | Returns x \<Rightarrow> f x)"

text \<open>
  The four checks of an expectation against its actual request \<open>a\<close> (the caller has
  tested that \<open>rq.actual\<close> is not nil). \<open>URL a\<close> is \<open>a.URL.String()\<close>.
\<close>

definition checkMethodExpectation :: "MockRequest \<Rightarrow> request \<Rightarrow> string list" where
  "checkMethodExpectation rq a =
     (if mr_method rq \<noteq> None \<and> the (mr_method rq) \<noteq> Method a
      then [''expected method: '' @ the (mr_method rq), ''   got         : '' @ Method a]
      else [])"

definition checkURLExpectation :: "MockRequest \<Rightarrow> request \<Rightarrow> string list" where
  "checkURLExpectation rq a =
     (let u = (if mr_url rq = [] then ''<not specified>'' else mr_url rq)
      in if mr_url rq \<noteq> URL a
         then [''expected url: '' @ u, ''   got      : '' @ URL a]
         else [])"

text \<open>The dump of the actual headers; \<open>av[0]\<close> panics on an empty list of values.\<close>

fun dump_headers :: "header \<Rightarrow> string list outcome" where
  "dump_headers [] = Returns []"
| "dump_headers ((k, av) # h) =
     (case av of
        [] \<Rightarrow> Panics (RuntimeError ''index out of range [0] with length 0'')
      | v # _ \<Rightarrow> obind (dump_headers h) (\<lambda>r. Returns ((''             '' @ k @ '': '' @ v) # r)))"

definition header_not_set :: "string \<Rightarrow> header \<Rightarrow> string list outcome" where
  "header_not_set msg h =
     obind (dump_headers h) (\<lambda>d. Returns ([msg, ''           got: [''] @ d @ [''           ]'']))"

fun checkHeaders_loop :: "request \<Rightarrow> (string \<times> string option) list \<Rightarrow> string list outcome" where
  "checkHeaders_loop a [] = Returns []"
| "checkHeaders_loop a ((k, v) # kvs) =
     (case map_of (Header a) k of
        Some [] \<Rightarrow> Panics (RuntimeError ''index out of range [0] with length 0'')
      | av \<Rightarrow>
         (let present = (av \<noteq> None);
              avs = (case av of None \<Rightarrow> [] | Some xs \<Rightarrow> hd xs)
          in obind
               (if \<not> present \<and> v = None then
                  header_not_set (''header not set: '' @ k) (Header a)
                else if \<not> present \<and> v \<noteq> None then
                  header_not_set (''header not set: '' @ k @ '': '' @ the v) (Header a)
                else if v \<noteq> None \<and> avs \<noteq> the v then
                  Returns [''expected header: '' @ k @ '': '' @ the v,
                           ''   got         : '' @ k @ '': '' @ avs]
                else Returns [])
               (\<lambda>r. obind (checkHeaders_loop a kvs) (\<lambda>rest. Returns (r @ rest)))))"

definition checkHeadersExpectation :: "MockRequest \<Rightarrow> request \<Rightarrow> string list outcome" where
  "checkHeadersExpectation rq a = checkHeaders_loop a (headers rq)"

text \<open>\<open>bytes.Split(b, []byte("\n"))\<close>.\<close>

fun split_lines :: "string \<Rightarrow> string \<Rightarrow> string list" where
  "split_lines cur [] = [cur]"
| "split_lines cur (c # cs) =
     (if c = CHR 0x0A then cur # split_lines [] cs else split_lines (cur @ [c]) cs)"

text \<open>
  \<open>checkBodyExpectation\<close> reads the body of the actual request with \<open>io.ReadAll\<close>,
  drops the error of the read and closes the body. A nil body panics there. The reader
  is used up afterwards, for this expectation and for every other holder of the request.
\<close>

definition checkBodyExpectation :: "bodies \<Rightarrow> MockRequest \<Rightarrow> request
    \<Rightarrow> string list outcome \<times> bodies" where
  "checkBodyExpectation bs rq a =
     (case body rq of
        None \<Rightarrow> (Returns [], bs)
      | Some expected \<Rightarrow>
          (case read_request_body bs (Body a) of
             (Panics p, bs') \<Rightarrow> (Panics p, bs')
           | (Returns read, bs') \<Rightarrow>
               (Returns
                 (if expected = read then []
                  else if length expected = 0 then
                    [''expected: <no body>'',
                     ''   got  : '' @ Itoa (int (length read)) @ '' bytes'']
                  else if length read = 0 then
                    [''expected: '' @ Itoa (int (length expected)) @ '' bytes'',
                     ''   got  : <no body>'']
                  else
                    [''request body differs from expected'', ''   got   :_________'']
                    @ map (\<lambda>b. ''         |'' @ b) (split_lines [] read)
                    @ [''   wanted:_________'']
                    @ map (\<lambda>b. ''         |'' @ b) (split_lines [] expected)), bs')))"

text \<open>
  \<open>MockRequest.checkExpectations\<close>: the report, empty when the expectation is met, and
  the store of request bodies after the check. The headers are checked before the body
  is read.
\<close>

definition checkExpectations :: "bodies \<Rightarrow> MockRequest \<Rightarrow> string list outcome \<times> bodies" where
  "checkExpectations bs rq =
     (if \<not> isExpected rq then
        (case actual rq of
           None \<Rightarrow> (Returns [], bs)
         | Some a \<Rightarrow> (Returns [''  got: '' @ Method a @ '' '' @ URL a], bs))
      else case actual rq of
        None \<Rightarrow> (Returns [''  got: <no request>''], bs)
      | Some a \<Rightarrow>
          (case checkHeadersExpectation rq a of
             Panics p \<Rightarrow> (Panics p, bs)
           | Returns h \<Rightarrow>
               (case checkBodyExpectation bs rq a of
                  (Panics p, bs') \<Rightarrow> (Panics p, bs')
                | (Returns b, bs') \<Rightarrow>
                    (Returns (checkMethodExpectation rq a @ checkURLExpectation rq a @ h @ b),
                     bs'))))"

subsection \<open>ExpectationsWereMet (mockClient.go)\<close>

text \<open>The line that names a failing expectation, and the line of an unexpected request.\<close>

definition expecting_line :: "MockRequest \<Rightarrow> err" where
  "expecting_line rq =
     Plain (''request #'' @ Itoa (index rq + 1) @ '': expecting: ''
            @ (case mr_method rq of None \<Rightarrow> ''<ANY METHOD>'' | Some m \<Rightarrow> m) @ '' '' @ mr_url rq)"

definition unexpected_line :: "nat \<Rightarrow> nat \<Rightarrow> request \<Rightarrow> err" where
  "unexpected_line n ix rq =
     Plain (''request #'' @ Itoa (int n + int ix + 1) @ '': unexpected: ''
            @ Method rq @ '' '' @ URL rq)"

text \<open>The first loop of \<open>ExpectationsWereMet\<close>: the expectations are checked in order.\<close>

fun expectation_errors :: "bodies \<Rightarrow> MockRequest list \<Rightarrow> err list outcome \<times> bodies" where
  "expectation_errors bs [] = (Returns [], bs)"
| "expectation_errors bs (rq # rqs) =
     (case checkExpectations bs rq of
        (Panics p, bs') \<Rightarrow> (Panics p, bs')
      | (Returns rpt, bs') \<Rightarrow>
          (case expectation_errors bs' rqs of
             (Panics p, bs'') \<Rightarrow> (Panics p, bs'')
           | (Returns rest, bs'') \<Rightarrow>
               (Returns ((if length rpt > 0
                          then expecting_line rq # map (\<lambda>s. Plain (''   '' @ s)) rpt
                          else []) @ rest), bs'')))"

definition unexpected_errors :: "nat \<Rightarrow> request list \<Rightarrow> err list" where
  "unexpected_errors n rqs = map (\<lambda>(ix, rq). unexpected_line n ix rq) (enumerate 0 rqs)"

text \<open>
  \<open>mockClient.ExpectationsWereMet\<close>: the error it returns, or the panic, and the store of
  request bodies as the call leaves it.
\<close>

definition ExpectationsWereMet :: "bodies \<Rightarrow> mockClient \<Rightarrow> err option outcome \<times> bodies" where
  "ExpectationsWereMet bs mock =
     (case expectation_errors bs (expectations mock) of
        (Panics p, bs') \<Rightarrow> (Panics p, bs')
      | (Returns errs1, bs') \<Rightarrow>
          (let errs = errs1 @ unexpected_errors (length (expectations mock)) (unexpected mock)
           in (Returns (if length errs > 0
                        then Some (MockExpectationsError (mc_name mock) errs) else None), bs')))"

text \<open>
  The reports of the checks as \<open>ExpectationsWereMet\<close> runs them, one after the other on
  the store the check before left.
\<close>

fun check_reports :: "bodies \<Rightarrow> MockRequest list \<Rightarrow> string list list outcome" where
  "check_reports bs [] = Returns []"
| "check_reports bs (rq # rqs) =
     (case checkExpectations bs rq of
        (Panics p, bs') \<Rightarrow> Panics p
      | (Returns rpt, bs') \<Rightarrow> obind (check_reports bs' rqs) (\<lambda>rest. Returns (rpt # rest)))"

text \<open>The lines a report adds to the errors of \<open>ExpectationsWereMet\<close>.\<close>

definition report_errors :: "MockRequest \<times> string list \<Rightarrow> err list" where
  "report_errors = (\<lambda>(rq, rpt). if length rpt > 0
       then expecting_line rq # map (\<lambda>s. Plain (''   '' @ s)) rpt else [])"

text \<open>
  The states of a mock that \<open>NewMockClient\<close>, \<open>Expect\<close>, \<open>Do\<close>, \<open>Reset\<close> and the
  configuration of expectations can reach: the cursor is the sentinel exactly when there
  is no expectation, and otherwise an index from 0 up to the number of expectations.
\<close>

definition mock_wf :: "mockClient \<Rightarrow> bool" where
  "mock_wf mock =
     (if expectations mock = [] then nxt mock = noExpectedRequests
      else 0 \<le> nxt mock \<and> nxt mock \<le> int (length (expectations mock)))"

section \<open>Example values\<close>

text \<open>
  A wrapped client without state that fails on every call, one that answers every call
  with a given response, one that counts its calls and fails on the first only, and
  clients built on their recording versions.
\<close>

definition failing :: "unit transport" where
  "failing = (\<lambda>s rq. ((None, Some (Plain ''connection refused'')), s))"

definition answering :: "response \<Rightarrow> unit transport" where
  "answering r = (\<lambda>s rq. ((Some r, None), s))"

definition flaky :: "response \<Rightarrow> nat transport" where
  "flaky r = (\<lambda>n rq. if n = 0 then ((None, Some (Plain ''connection refused'')), Suc n)
                       else ((Some r, None), Suc n))"

definition flaky_client :: "response \<Rightarrow> (nat \<times> call list) client" where
  "flaky_client r = \<lparr>name = ''api'', url = ''http://example.com'',
                      wrapped = recording (flaky r), maxRetries = 2\<rparr>"

definition client_of :: "unit transport \<Rightarrow> (unit \<times> call list) client" where
  "client_of t = \<lparr>name = ''api'', url = ''http://example.com'',
                  wrapped = recording t, maxRetries = 2\<rparr>"

text \<open>A store in which every reader is at its end.\<close>

definition no_bodies :: bodies where
  "no_bodies = (\<lambda>p. [])"

definition get_request :: "header \<Rightarrow> request" where
  "get_request h = \<lparr>Method = ''GET'', URL = ''http://example.com/path'', Header = h,
                     Body = NilBody\<rparr>"

definition ok_response :: "stream body \<Rightarrow> response" where
  "ok_response b = \<lparr>Status = ''200 OK'', StatusCode = 200, RespHeader = [],
                     RespBody = b, ContentLength = - 1\<rparr>"

text \<open>
  An environment for the examples: the recorder's result with the code written (200 when
  none was), a body writer that does not fail, and paths joined as they are.
\<close>

definition example_env :: env where
  "example_env =
     \<lparr>Result = (\<lambda>r. \<lparr>Status = Itoa (case rec_code r of None \<Rightarrow> 200 | Some c \<Rightarrow> c),
                       StatusCode = (case rec_code r of None \<Rightarrow> 200 | Some c \<Rightarrow> c),
                       RespHeader = rec_header r, RespBody = Reader (NopCloser (rec_body r)),
                       ContentLength = - 1\<rparr>),
      writeBody = (\<lambda>b. None),
      JoinPath = (\<lambda>h p. Inr (h @ p))\<rparr>"

section \<open>Properties of the execution engine\<close>

lemma parse_Header:
  "parse rq hdr fn cur = (out, rq') \<Longrightarrow> rq' = rq\<lparr>Header := AList.delete hdr (Header rq)\<rparr>"
  by (auto simp: parse_def Let_def split: option.splits list.splits sum.splits)

lemma parseRequestHeaders_Returns_Header:
  assumes "parseRequestHeaders c rq = (Returns v, rq')"
  shows "rq' = rq\<lparr>Header := AList.delete StreamResponseHeader
                 (AList.delete ResponseBodyRequiredHeader
                   (AList.delete AcceptStatusHeader
                     (AList.delete MaxRetriesHeader (Header rq))))\<rparr>"
  using assms unfolding parseRequestHeaders_def
  by (auto split: prod.splits outcome.splits dest!: parse_Header)

lemma do_loop_recording_log:
  "wrapped c = recording t \<Longrightarrow> do_loop c rq retries accept n st = (out, st') \<Longrightarrow>
     \<exists>calls. snd st' = snd st @ calls \<and> calls \<noteq> [] \<and> (\<forall>e\<in>set calls. fst e = rq)"
proof (induction c rq retries accept n st rule: do_loop.induct)
  case (1 c rq retries accept n s)
  obtain s0 log where s: "s = (s0, log)" by (cases s)
  let ?res = "wrapped c s rq"
  have log1: "snd (snd ?res) = log @ [(rq, fst (t s0 rq))]"
    using 1(2) s by (simp add: recording_def)
  show ?case
  proof (cases "snd (fst ?res) \<noteq> None \<and> retries \<noteq> 0 \<and> n \<noteq> 0")
    case True
    then have "do_loop c rq retries accept (n - 1) (snd ?res) = (out, st')"
      using 1(3) by (subst (asm) do_loop.simps) (simp add: Let_def)
    from 1(1)[OF refl refl refl refl _ _ _ 1(2) this] True
    obtain calls where "snd st' = snd (snd ?res) @ calls" "\<forall>e\<in>set calls. fst e = rq"
      by auto
    then show ?thesis using log1 s by auto
  next
    case False
    then have "snd st' = snd (snd ?res)"
      using 1(3) by (subst (asm) do_loop.simps) (auto simp: Let_def split: if_splits)
    then show ?thesis using log1 s by auto
  qed
qed

lemma do_loop_always_failing:
  assumes w: "wrapped c = recording t" and f: "\<forall>s rq. snd (fst (t s rq)) \<noteq> None"
    and r: "retries \<noteq> 0"
  shows "\<exists>r e s' calls. do_loop c rq retries accept n st =
            (Returns (r, Some (Wrap [Sentinel ErrMaxRetriesExceeded, e])), (s', snd st @ calls))
          \<and> length calls = unat n + 1 \<and> (\<forall>x\<in>set calls. fst x = rq)
          \<and> snd (last calls) = (r, Some e)"
  using w r
proof (induction c rq retries accept n st rule: do_loop.induct)
  case (1 c rq retries accept n s)
  obtain s0 log where s: "s = (s0, log)" by (cases s)
  let ?res = "wrapped c s rq"
  have res: "?res = (fst (t s0 rq), (snd (t s0 rq), log @ [(rq, fst (t s0 rq))]))"
    using 1(2) s by (simp add: recording_def)
  obtain e where e: "snd (fst (t s0 rq)) = Some e" using f by fastforce
  show ?case
  proof (cases "n = 0")
    case True
    then have "do_loop c rq retries accept n s =
       (Returns (fst (fst (t s0 rq)), Some (Wrap [Sentinel ErrMaxRetriesExceeded, e])),
        (snd (t s0 rq), snd s @ [(rq, fst (t s0 rq))]))"
      using 1(3) res e s by (subst do_loop.simps) (simp add: Let_def)
    then show ?thesis using True e by (auto intro!: exI[of _ "[(rq, fst (t s0 rq))]"] simp: prod_eq_iff)
  next
    case False
    have step: "do_loop c rq retries accept n s = do_loop c rq retries accept (n - 1) (snd ?res)"
      using 1(3) res e False by (subst do_loop.simps) (simp add: Let_def)
    have "snd (fst ?res) \<noteq> None" using res e by simp
    from 1(1)[OF refl refl refl refl this 1(3) False 1(2) 1(3)]
    obtain r e' s' calls where IH:
      "do_loop c rq retries accept (n - 1) (snd ?res) =
        (Returns (r, Some (Wrap [Sentinel ErrMaxRetriesExceeded, e'])), (s', snd (snd ?res) @ calls))"
      "length calls = unat (n - 1) + 1" "\<forall>x\<in>set calls. fst x = rq" "snd (last calls) = (r, Some e')"
      by blast
    have n: "unat (n - 1) + 1 = unat n" using False by (simp add: unat_minus_one unat_gt_0 word_neq_0_conv)
    have ne: "calls \<noteq> []" using IH(2) by auto
    show ?thesis
      apply (rule exI[of _ r], rule exI[of _ e'], rule exI[of _ s'])
      apply (rule exI[of _ "(rq, fst (t s0 rq)) # calls"])
      using step IH n ne res s by simp
  qed
qed

lemma errors_Is_refl: "errors_Is e e"
  by (cases e) simp_all

lemma do_loop_nil_error:
  "do_loop c rq retries accept n st = (Returns (ro, None), st') \<Longrightarrow>
     \<exists>r. ro = Some r \<and> (word_of_int (StatusCode r) :: uint) \<in> set accept"
proof (induction c rq retries accept n st rule: do_loop.induct)
  case (1 c rq retries accept n s)
  show ?case
  proof (cases "snd (fst (wrapped c s rq)) \<noteq> None \<and> retries \<noteq> 0 \<and> n \<noteq> 0")
    case True
    then have "do_loop c rq retries accept (n - 1) (snd (wrapped c s rq)) = (Returns (ro, None), st')"
      using 1(2) by (subst (asm) do_loop.simps) (simp add: Let_def)
    from 1(1)[OF refl refl refl refl _ _ _ this] True show ?thesis by auto
  next
    case False
    then show ?thesis
      using 1(2) by (subst (asm) do_loop.simps) (auto simp: Let_def list_ex_iff split: if_splits intro: sym)
  qed
qed

lemma do_first_attempt:
  assumes "wrapped c s rq = ((Some r, None), s')"
    and "(word_of_int (StatusCode r) :: uint) \<in> set accept"
  shows "do c rq retries accept s = (Returns (Some r, None), s')"
  using assms unfolding do_def by (subst do_loop.simps) (auto simp: Let_def list_ex_iff)

lemma parseRequestHeaders_Returns:
  assumes "parseRequestHeaders c rq = (Returns (d, e), rq')"
  shows "\<exists>e1 e2 e3 e4 rq1 rq2 rq3.
     parse rq MaxRetriesHeader parse_maxRetries (maxRetries c)
       = (Returns (e1, d_maxRetries d), rq1)
   \<and> parse rq1 AcceptStatusHeader (parse_acceptStatus [200]) [200]
       = (Returns (e2, d_acceptableStatusCodes d), rq2)
   \<and> parse rq2 ResponseBodyRequiredHeader (\<lambda>s. Inr (s = ''true'')) False
       = (Returns (e3, d_responseBodyRequired d), rq3)
   \<and> parse rq3 StreamResponseHeader (\<lambda>s. Inr (s = ''true'')) False
       = (Returns (e4, d_streamResponse d), rq')
   \<and> e = errors_Join [e1, e2, e3, e4]"
  using assms unfolding parseRequestHeaders_def
  by (auto split: prod.splits outcome.splits)

lemma errors_Join_None: "errors_Join es = None \<longleftrightarrow> (\<forall>e \<in> set es. e = None)"
  by (induction es) (auto simp: errors_Join_def List.map_filter_simps Let_def split: option.splits)

lemma parse_Returns:
  assumes "parse rq hdr fn cur = (Returns (None, v), rq')"
  shows "case map_of (Header rq) hdr of
           None \<Rightarrow> v = cur
         | Some vs \<Rightarrow> vs \<noteq> [] \<and> fn (hd vs) = Inr v"
  using assms unfolding parse_def
  by (auto simp: Let_def split: option.splits list.splits sum.splits)

lemma parseRequestHeaders_maxRetries:
  assumes "parseRequestHeaders c rq = (Returns (d, None), rq')"
  shows "case map_of (Header rq) MaxRetriesHeader of
           None \<Rightarrow> d_maxRetries d = maxRetries c
         | Some vs \<Rightarrow> vs \<noteq> [] \<and> parse_maxRetries (hd vs) = Inr (d_maxRetries d)"
proof -
  from parseRequestHeaders_Returns[OF assms] obtain e1 e2 e3 e4 rq1 where
    p: "parse rq MaxRetriesHeader parse_maxRetries (maxRetries c) = (Returns (e1, d_maxRetries d), rq1)"
    and j: "None = errors_Join [e1, e2, e3, e4]" by blast
  from j have "e1 = None" using errors_Join_None[of "[e1, e2, e3, e4]"] by simp
  with p show ?thesis using parse_Returns by fastforce
qed

text \<open>
  C1. Retry counting. Take a request whose directives parse without error to a max-retries
  value \<open>N \<ge> 1\<close>: the value of the max-retries header when the request holds one, the
  client's default when it does not. Against a wrapped client that returns an error on
  every call, \<open>Do\<close> calls the wrapped client exactly \<open>N + 1\<close> times, each time with the
  request as the parse left it, and returns an error that wraps \<open>ErrMaxRetriesExceeded\<close>
  and the error of the last call.
\<close>

theorem retry_counting:
  assumes "wrapped c = recording t"
    and "\<forall>s rq. snd (fst (t s rq)) \<noteq> None"
    and "parseRequestHeaders c rq = (Returns (d, None), rq')"
    and "1 \<le> unat (d_maxRetries d)"
  shows "\<exists>r e e_last s' calls.
           Do c rq (s, log) = (Returns (r, Some e), rq', (s', log @ calls))
         \<and> length calls = unat (d_maxRetries d) + 1
         \<and> (\<forall>x \<in> set calls. fst x = rq')
         \<and> snd (last calls) = (r, Some e_last)
         \<and> errors_Is e (Sentinel ErrMaxRetriesExceeded)
         \<and> errors_Is e e_last
         \<and> (case map_of (Header rq) MaxRetriesHeader of
               None \<Rightarrow> d_maxRetries d = maxRetries c
             | Some vs \<Rightarrow> vs \<noteq> [] \<and> parse_maxRetries (hd vs) = Inr (d_maxRetries d))"
proof -
  have "d_maxRetries d \<noteq> 0" using assms(4) by auto
  from do_loop_always_failing[OF assms(1,2) this, of rq' "d_acceptableStatusCodes d" "d_maxRetries d" "(s, log)"]
  obtain r e s' calls where
    d: "do c rq' (d_maxRetries d) (d_acceptableStatusCodes d) (s, log) =
          (Returns (r, Some (Wrap [Sentinel ErrMaxRetriesExceeded, e])), (s', log @ calls))"
    and l: "length calls = unat (d_maxRetries d) + 1" "\<forall>x\<in>set calls. fst x = rq'"
       "snd (last calls) = (r, Some e)"
    unfolding do_def by auto
  have D: "Do c rq (s, log) =
     (Returns (handle c rq' r (Wrap [Sentinel ErrMaxRetriesExceeded, e])), rq', (s', log @ calls))"
    unfolding Do_def using assms(3) d by simp
  show ?thesis
    using D l parseRequestHeaders_maxRetries[OF assms(3)]
    by (auto simp: handle_def errors_Is_refl)
qed

lemmas header_defs = MaxRetriesHeader_def AcceptStatusHeader_def
  ResponseBodyRequiredHeader_def StreamResponseHeader_def

lemmas atoi_defs = Atoi_def is_digit_def digits_value_def digit_val_def parse_maxRetries_def

theorem retry_counting_witness:
  "wrapped (client_of failing) = recording failing
   \<and> (\<forall>s rq. snd (fst (failing s rq)) \<noteq> None)
   \<and> parseRequestHeaders (client_of failing) (get_request [(MaxRetriesHeader, [''1''])])
       = (Returns (\<lparr>d_maxRetries = 1, d_acceptableStatusCodes = [200],
            d_responseBodyRequired = False, d_streamResponse = False\<rparr>, None), get_request [])
   \<and> (\<exists>r e e_last s' calls.
         Do (client_of failing) (get_request [(MaxRetriesHeader, [''1''])]) ((), [])
           = (Returns (r, Some e), get_request [], (s', [] @ calls))
       \<and> length calls = 2
       \<and> errors_Is e (Sentinel ErrMaxRetriesExceeded)
       \<and> errors_Is e e_last)"
proof -
  have h1: "wrapped (client_of failing) = recording failing" by (simp add: client_of_def)
  have h2: "\<forall>s rq. snd (fst (failing s rq)) \<noteq> None" by (simp add: failing_def)
  have h3: "parseRequestHeaders (client_of failing) (get_request [(MaxRetriesHeader, [''1''])])
       = (Returns (\<lparr>d_maxRetries = 1, d_acceptableStatusCodes = [200],
            d_responseBodyRequired = False, d_streamResponse = False\<rparr>, None), get_request [])"
    by (simp add: parseRequestHeaders_def parse_def get_request_def client_of_def header_defs
       atoi_defs errors_Join_def List.map_filter_simps)
  have h4: "1 \<le> unat (d_maxRetries \<lparr>d_maxRetries = 1, d_acceptableStatusCodes = [200],
            d_responseBodyRequired = False, d_streamResponse = False\<rparr>)" by simp
  from retry_counting[OF h1 h2 h3 h4, of "()" "[]"] show ?thesis
    using h1 h2 h3 by (simp add: numeral_2_eq_2) blast
qed

lemma do_loop_retry:
  assumes "snd (fst (wrapped c s rq)) \<noteq> None" "retries \<noteq> 0" "n \<noteq> 0"
  shows "do_loop c rq retries accept n s = do_loop c rq retries accept (n - 1) (snd (wrapped c s rq))"
  using assms by (subst do_loop.simps) (simp add: Let_def)

lemma do_loop_error:
  assumes "fst (wrapped c s rq) = (r, Some e)" "retries = 0 \<or> n = 0"
  shows "do_loop c rq retries accept n s
     = (Returns (r, Some (if retries = 0 then e else Wrap [Sentinel ErrMaxRetriesExceeded, e])),
        snd (wrapped c s rq))"
  using assms by (subst do_loop.simps) (auto simp: Let_def)

lemma do_loop_nil:
  assumes "fst (wrapped c s rq) = (None, None)"
  shows "do_loop c rq retries accept n s
     = (Panics (RuntimeError ''nil pointer dereference''), snd (wrapped c s rq))"
  using assms by (subst do_loop.simps) (simp add: Let_def)

lemma do_loop_response:
  assumes "fst (wrapped c s rq) = (Some r, None)"
  shows "do_loop c rq retries accept n s
     = (if (word_of_int (StatusCode r) :: uint) \<in> set accept then Returns (Some r, None)
        else Returns (Some r, Some (Errorf (''%w: '' @ Status r) [Sentinel ErrUnexpectedStatusCode])),
        snd (wrapped c s rq))"
  using assms by (subst do_loop.simps) (simp add: Let_def list_ex_iff)


lemma do_loop_last_call:
  assumes "wrapped c = recording t" and "do_loop c rq retries accept n st = (out, st')"
  shows "\<exists>calls. snd st' = snd st @ calls \<and> calls \<noteq> [] \<and> (\<forall>x \<in> set calls. fst x = rq)
      \<and> (\<forall>x \<in> set (butlast calls). snd (snd x) \<noteq> None)
      \<and> (\<forall>r. snd (last calls) = (Some r, None)
             \<longrightarrow> (word_of_int (StatusCode r) :: uint) \<in> set accept
             \<longrightarrow> out = Returns (Some r, None))
      \<and> (\<forall>ro. out = Returns (ro, None)
             \<longrightarrow> (\<exists>r. ro = Some r \<and> snd (last calls) = (Some r, None)
                    \<and> (word_of_int (StatusCode r) :: uint) \<in> set accept))"
  using assms
proof (induction c rq retries accept n st arbitrary: out st' rule: do_loop.induct)
  case (1 c rq retries accept n s)
  obtain s0 log where s: "s = (s0, log)" by (cases s)
  obtain r e where re: "fst (t s0 rq) = (r, e)" by (cases "fst (t s0 rq)")
  let ?res = "wrapped c s rq"
  have res: "fst ?res = (r, e)" "snd (snd ?res) = log @ [(rq, (r, e))]"
    using 1(2) s re by (simp_all add: recording_def)
  let ?one = "[(rq, (r, e))]"
  have one: "snd (snd ?res) = snd s @ ?one" "?one \<noteq> []" "\<forall>x \<in> set ?one. fst x = rq"
    "\<forall>x \<in> set (butlast ?one). snd (snd x) \<noteq> None" "snd (last ?one) = (r, e)"
    using res s by simp_all
  show ?case
  proof (cases e)
    case None
    show ?thesis
    proof (cases r)
      case N: None
      have "do_loop c rq retries accept n s
          = (Panics (RuntimeError ''nil pointer dereference''), snd ?res)"
        using res None N by (intro do_loop_nil) simp
      then have "out = Panics (RuntimeError ''nil pointer dereference'')" "st' = snd ?res"
        using 1(3) by simp_all
      then show ?thesis using one None N by (intro exI[of _ ?one]) simp
    next
      case (Some r')
      have "do_loop c rq retries accept n s
          = (if (word_of_int (StatusCode r') :: uint) \<in> set accept then Returns (Some r', None)
             else Returns (Some r', Some (Errorf (''%w: '' @ Status r')
                    [Sentinel ErrUnexpectedStatusCode])), snd ?res)"
        using res None Some by (intro do_loop_response) simp
      then have "out = (if (word_of_int (StatusCode r') :: uint) \<in> set accept
                        then Returns (Some r', None)
                        else Returns (Some r', Some (Errorf (''%w: '' @ Status r')
                               [Sentinel ErrUnexpectedStatusCode])))" "st' = snd ?res"
        using 1(3) by simp_all
      then show ?thesis using one None Some by (intro exI[of _ ?one]) (simp split: if_splits)
    qed
  next
    case (Some err)
    show ?thesis
    proof (cases "retries = 0 \<or> n = 0")
      case True
      have "do_loop c rq retries accept n s
         = (Returns (r, Some (if retries = 0 then err
                              else Wrap [Sentinel ErrMaxRetriesExceeded, err])), snd ?res)"
        using res Some True by (intro do_loop_error) simp_all
      then have "out = Returns (r, Some (if retries = 0 then err
                              else Wrap [Sentinel ErrMaxRetriesExceeded, err]))" "st' = snd ?res"
        using 1(3) by simp_all
      then show ?thesis using one Some by (intro exI[of _ ?one]) simp
    next
      case False
      have ne: "snd (fst ?res) \<noteq> None" using res Some by simp
      have "do_loop c rq retries accept n s = do_loop c rq retries accept (n - 1) (snd ?res)"
        using ne False by (intro do_loop_retry) simp_all
      then have step: "do_loop c rq retries accept (n - 1) (snd ?res) = (out, st')"
        using 1(3) by simp
      from False have F: "retries \<noteq> 0" "n \<noteq> 0" by simp_all
      from 1(1)[OF refl refl refl refl ne F 1(2) step]
      obtain calls where c: "snd st' = snd (snd ?res) @ calls" "calls \<noteq> []"
        "\<forall>x\<in>set calls. fst x = rq" "\<forall>x\<in>set (butlast calls). snd (snd x) \<noteq> None"
        "\<forall>r. snd (last calls) = (Some r, None)
               \<longrightarrow> (word_of_int (StatusCode r) :: uint) \<in> set accept
               \<longrightarrow> out = Returns (Some r, None)"
        "\<forall>ro. out = Returns (ro, None)
               \<longrightarrow> (\<exists>r. ro = Some r \<and> snd (last calls) = (Some r, None)
                      \<and> (word_of_int (StatusCode r) :: uint) \<in> set accept)"
        by blast
      have "snd st' = snd s @ ((rq, (r, e)) # calls)" using c(1) one(1) by simp
      moreover have "\<forall>x\<in>set (butlast ((rq, (r, e)) # calls)). snd (snd x) \<noteq> None"
        using c(2,4) Some by simp
      moreover have "last ((rq, (r, e)) # calls) = last calls" using c(2) by simp
      ultimately show ?thesis using c(2,3,5,6) by (intro exI[of _ "(rq, (r, e)) # calls"]) simp
    qed
  qed
qed

lemma parse_flag:
  assumes "parse rq hdr (\<lambda>s. Inr (s = ''true'')) False = (Returns (e, v), rq')"
  shows "v = (\<exists>vs. map_of (Header rq) hdr = Some (''true'' # vs))"
  using assms unfolding parse_def
  by (auto simp: Let_def split: option.splits list.splits)

lemma parseRequestHeaders_directives:
  assumes "parseRequestHeaders c rq = (Returns (d, None), rq')"
  shows "(case map_of (Header rq) MaxRetriesHeader of
            None \<Rightarrow> d_maxRetries d = maxRetries c
          | Some vs \<Rightarrow> vs \<noteq> [] \<and> parse_maxRetries (hd vs) = Inr (d_maxRetries d))"
    and "(case map_of (Header rq) AcceptStatusHeader of
            None \<Rightarrow> d_acceptableStatusCodes d = [200]
          | Some vs \<Rightarrow> vs \<noteq> []
              \<and> parse_acceptStatus [200] (hd vs) = Inr (d_acceptableStatusCodes d))"
    and "d_responseBodyRequired d
           = (\<exists>vs. map_of (Header rq) ResponseBodyRequiredHeader = Some (''true'' # vs))"
    and "d_streamResponse d
           = (\<exists>vs. map_of (Header rq) StreamResponseHeader = Some (''true'' # vs))"
proof -
  from parseRequestHeaders_Returns[OF assms] obtain e1 e2 e3 e4 rq1 rq2 rq3 where
    p1: "parse rq MaxRetriesHeader parse_maxRetries (maxRetries c)
           = (Returns (e1, d_maxRetries d), rq1)"
    and p2: "parse rq1 AcceptStatusHeader (parse_acceptStatus [200]) [200]
           = (Returns (e2, d_acceptableStatusCodes d), rq2)"
    and p3: "parse rq2 ResponseBodyRequiredHeader (\<lambda>s. Inr (s = ''true'')) False
           = (Returns (e3, d_responseBodyRequired d), rq3)"
    and p4: "parse rq3 StreamResponseHeader (\<lambda>s. Inr (s = ''true'')) False
           = (Returns (e4, d_streamResponse d), rq')"
    and j: "None = errors_Join [e1, e2, e3, e4]"
    by blast
  from j have n: "e1 = None" "e2 = None"
    using errors_Join_None[of "[e1, e2, e3, e4]"] by simp_all
  have h1: "map_of (Header rq1) AcceptStatusHeader = map_of (Header rq) AcceptStatusHeader"
    unfolding parse_Header[OF p1] by (simp add: AList.delete_conv' header_defs)
  have h2: "map_of (Header rq2) ResponseBodyRequiredHeader
          = map_of (Header rq) ResponseBodyRequiredHeader"
    unfolding parse_Header[OF p1] parse_Header[OF p2]
    by (simp add: AList.delete_conv' header_defs)
  have h3: "map_of (Header rq3) StreamResponseHeader = map_of (Header rq) StreamResponseHeader"
    unfolding parse_Header[OF p1] parse_Header[OF p2] parse_Header[OF p3]
    by (simp add: AList.delete_conv' header_defs)
  show "(case map_of (Header rq) MaxRetriesHeader of
            None \<Rightarrow> d_maxRetries d = maxRetries c
          | Some vs \<Rightarrow> vs \<noteq> [] \<and> parse_maxRetries (hd vs) = Inr (d_maxRetries d))"
    using parse_Returns[of rq MaxRetriesHeader parse_maxRetries "maxRetries c" "d_maxRetries d" rq1]
      p1 n by simp
  show "(case map_of (Header rq) AcceptStatusHeader of
            None \<Rightarrow> d_acceptableStatusCodes d = [200]
          | Some vs \<Rightarrow> vs \<noteq> []
              \<and> parse_acceptStatus [200] (hd vs) = Inr (d_acceptableStatusCodes d))"
    using parse_Returns[of rq1 AcceptStatusHeader "parse_acceptStatus [200]" "[200]"
        "d_acceptableStatusCodes d" rq2] p2 n h1 by simp
  show "d_responseBodyRequired d
           = (\<exists>vs. map_of (Header rq) ResponseBodyRequiredHeader = Some (''true'' # vs))"
    using parse_flag[OF p3] h2 by simp
  show "d_streamResponse d
           = (\<exists>vs. map_of (Header rq) StreamResponseHeader = Some (''true'' # vs))"
    using parse_flag[OF p4] h3 by simp
qed

lemma Do_submits:
  assumes "wrapped c = recording t"
    and "parseRequestHeaders c rq = (Returns (d, None), rq')"
    and "Do c rq (s, log) = (out, rq'', (s', log'))"
  shows "rq'' = rq' \<and> (\<exists>o2. do c rq' (d_maxRetries d) (d_acceptableStatusCodes d) (s, log)
                              = (o2, (s', log')))"
  using assms(2,3) unfolding Do_def
  by (auto simp: Let_def split: prod.splits outcome.splits option.splits if_splits)

lemma Do_after_success:
  assumes "wrapped c = recording t"
    and "parseRequestHeaders c rq = (Returns (d, None), rq')"
    and "Do c rq (s, log) = (out, rq'', (s', log @ calls))"
    and "snd (last calls) = (Some r, None)"
    and "(word_of_int (StatusCode r) :: uint) \<in> set (d_acceptableStatusCodes d)"
  shows "rq'' = rq' \<and> calls \<noteq> [] \<and> (\<forall>x \<in> set calls. fst x = rq')
       \<and> (\<forall>x \<in> set (butlast calls). snd (snd x) \<noteq> None)
       \<and> do c rq' (d_maxRetries d) (d_acceptableStatusCodes d) (s, log)
            = (Returns (Some r, None), (s', log @ calls))"
proof -
  from Do_submits[OF assms(1,2,3)] obtain o2 where
    rq: "rq'' = rq'"
    and d: "do c rq' (d_maxRetries d) (d_acceptableStatusCodes d) (s, log) = (o2, (s', log @ calls))"
    by blast
  from do_loop_last_call[OF assms(1) d[unfolded do_def]] obtain calls' where
    c: "log @ calls = log @ calls'" "calls' \<noteq> []" "\<forall>x \<in> set calls'. fst x = rq'"
      "\<forall>x \<in> set (butlast calls'). snd (snd x) \<noteq> None"
      "\<forall>r. snd (last calls') = (Some r, None)
             \<longrightarrow> (word_of_int (StatusCode r) :: uint) \<in> set (d_acceptableStatusCodes d)
             \<longrightarrow> o2 = Returns (Some r, None)"
    by auto
  from c(1) have e: "calls' = calls" by simp
  have "o2 = Returns (Some r, None)" using c(5) assms(4,5) e by blast
  then show ?thesis using rq d c(2,3,4) e by simp
qed

text \<open>
  C4. Streaming bypass. Take a request whose directives parse without error and whose
  stream-response header has \<open>true\<close> as its first value, and a run of \<open>Do\<close> on it in
  which the last call to the wrapped client returned a response \<open>r\<close> with no error and
  an acceptable status code (calls before it, if any, were failed attempts). Then
  \<open>Do\<close> returns that very response \<open>r\<close> and no error: body, content length and every
  other field are as the wrapped client gave them. Nothing is assumed about the
  body-required header; it may be set.
\<close>

theorem streaming_bypass:
  assumes "wrapped c = recording t"
    and "parseRequestHeaders c rq = (Returns (d, None), rq')"
    and "map_of (Header rq) StreamResponseHeader = Some (''true'' # vs)"
    and "Do c rq (s, log) = (out, rq'', (s', log @ calls))"
    and "snd (last calls) = (Some r, None)"
    and "(word_of_int (StatusCode r) :: uint) \<in> set (d_acceptableStatusCodes d)"
  shows "out = Returns (Some r, None)
       \<and> rq'' = rq' \<and> calls \<noteq> [] \<and> (\<forall>x \<in> set calls. fst x = rq')
       \<and> (case map_of (Header rq) AcceptStatusHeader of
             None \<Rightarrow> d_acceptableStatusCodes d = [200]
           | Some ws \<Rightarrow> ws \<noteq> []
               \<and> parse_acceptStatus [200] (hd ws) = Inr (d_acceptableStatusCodes d))"
proof -
  have st: "d_streamResponse d"
    using parseRequestHeaders_directives(4)[OF assms(2)] assms(3) by simp
  from Do_after_success[OF assms(1,2,4,5,6)] have
    a: "rq'' = rq'" "calls \<noteq> []" "\<forall>x \<in> set calls. fst x = rq'"
    and d: "do c rq' (d_maxRetries d) (d_acceptableStatusCodes d) (s, log)
            = (Returns (Some r, None), (s', log @ calls))"
    by simp_all
  have "Do c rq (s, log) = (Returns (Some r, None), rq', (s', log @ calls))"
    unfolding Do_def using assms(2) d st by simp
  then have "out = Returns (Some r, None)" using assms(4) by simp
  then show ?thesis using a parseRequestHeaders_directives(2)[OF assms(2)] by simp
qed

text \<open>
  C5. Body materialization. Take a request whose directives parse without error and whose
  stream-response directive is not true, and a run of \<open>Do\<close> on it in which the last call
  to the wrapped client returned a response \<open>r\<close> with no error and an acceptable status
  code, whose body reads, without error, as a non-empty byte sequence \<open>B\<close>. Then \<open>Do\<close>
  returns \<open>r\<close> with no error, its content length set to the length of \<open>B\<close> and its body
  reading back exactly \<open>B\<close>.
\<close>

theorem body_materialization:
  assumes "wrapped c = recording t"
    and "parseRequestHeaders c rq = (Returns (d, None), rq')"
    and "\<not> (\<exists>vs. map_of (Header rq) StreamResponseHeader = Some (''true'' # vs))"
    and "Do c rq (s, log) = (out, rq'', (s', log @ calls))"
    and "snd (last calls) = (Some r, None)"
    and "(word_of_int (StatusCode r) :: uint) \<in> set (d_acceptableStatusCodes d)"
    and "ioReadAll (RespBody r) = Returns (B, None)"
    and "B \<noteq> []"
  shows "\<exists>r'. out = Returns (Some r', None)
       \<and> r' = r\<lparr>ContentLength := int (length B), RespBody := Reader (NopCloser B)\<rparr>
       \<and> ContentLength r' = int (length B)
       \<and> ioReadAll (RespBody r') = Returns (B, None)
       \<and> rq'' = rq' \<and> calls \<noteq> [] \<and> (\<forall>x \<in> set calls. fst x = rq')
       \<and> (case map_of (Header rq) AcceptStatusHeader of
             None \<Rightarrow> d_acceptableStatusCodes d = [200]
           | Some ws \<Rightarrow> ws \<noteq> []
               \<and> parse_acceptStatus [200] (hd ws) = Inr (d_acceptableStatusCodes d))"
proof -
  have st: "\<not> d_streamResponse d"
    using parseRequestHeaders_directives(4)[OF assms(2)] assms(3) by simp
  from Do_after_success[OF assms(1,2,4,5,6)] have
    a: "rq'' = rq'" "calls \<noteq> []" "\<forall>x \<in> set calls. fst x = rq'"
    and d: "do c rq' (d_maxRetries d) (d_acceptableStatusCodes d) (s, log)
            = (Returns (Some r, None), (s', log @ calls))"
    by simp_all
  have "Do c rq (s, log)
      = (Returns (Some (r\<lparr>ContentLength := int (length B), RespBody := Reader (NopCloser B)\<rparr>),
                  None), rq', (s', log @ calls))"
    unfolding Do_def using assms(2,7,8) d st by simp
  then have "out = Returns (Some (r\<lparr>ContentLength := int (length B),
                                     RespBody := Reader (NopCloser B)\<rparr>), None)"
    using assms(4) by simp
  then show ?thesis using a parseRequestHeaders_directives(2)[OF assms(2)] by simp
qed

text \<open>
  C9. Empty body. Take a request whose directives parse without error and whose
  stream-response and response-body-required directives are not true, and a run of \<open>Do\<close>
  on it in which the last call to the wrapped client returned a response \<open>r\<close> with no
  error and an acceptable status code, whose body reads, without error, as zero bytes.
  Then \<open>Do\<close> returns \<open>r\<close> with no error, its content length set to 0 and its body
  replaced by \<open>http.NoBody\<close>.
\<close>

theorem empty_body_is_NoBody:
  assumes "wrapped c = recording t"
    and "parseRequestHeaders c rq = (Returns (d, None), rq')"
    and "\<not> (\<exists>vs. map_of (Header rq) StreamResponseHeader = Some (''true'' # vs))"
    and "\<not> (\<exists>vs. map_of (Header rq) ResponseBodyRequiredHeader = Some (''true'' # vs))"
    and "Do c rq (s, log) = (out, rq'', (s', log @ calls))"
    and "snd (last calls) = (Some r, None)"
    and "(word_of_int (StatusCode r) :: uint) \<in> set (d_acceptableStatusCodes d)"
    and "ioReadAll (RespBody r) = Returns ([], None)"
  shows "out = Returns (Some (r\<lparr>ContentLength := 0, RespBody := NoBody\<rparr>), None)
       \<and> rq'' = rq' \<and> calls \<noteq> [] \<and> (\<forall>x \<in> set calls. fst x = rq')
       \<and> (case map_of (Header rq) AcceptStatusHeader of
             None \<Rightarrow> d_acceptableStatusCodes d = [200]
           | Some ws \<Rightarrow> ws \<noteq> []
               \<and> parse_acceptStatus [200] (hd ws) = Inr (d_acceptableStatusCodes d))"
proof -
  have st: "\<not> d_streamResponse d"
    using parseRequestHeaders_directives(4)[OF assms(2)] assms(3) by simp
  have br: "\<not> d_responseBodyRequired d"
    using parseRequestHeaders_directives(3)[OF assms(2)] assms(4) by simp
  from Do_after_success[OF assms(1,2,5,6,7)] have
    a: "rq'' = rq'" "calls \<noteq> []" "\<forall>x \<in> set calls. fst x = rq'"
    and d: "do c rq' (d_maxRetries d) (d_acceptableStatusCodes d) (s, log)
            = (Returns (Some r, None), (s', log @ calls))"
    by simp_all
  have "Do c rq (s, log)
      = (Returns (Some (r\<lparr>ContentLength := 0, RespBody := NoBody\<rparr>), None),
         rq', (s', log @ calls))"
    unfolding Do_def using assms(2,8) d st br by simp
  then have "out = Returns (Some (r\<lparr>ContentLength := 0, RespBody := NoBody\<rparr>), None)"
    using assms(5) by simp
  then show ?thesis using a parseRequestHeaders_directives(2)[OF assms(2)] by simp
qed

lemma parseRequestHeaders_no_reserved:
  assumes "parseRequestHeaders c rq = (Returns v, rq')"
  shows "no_reserved rq'"
  unfolding parseRequestHeaders_Returns_Header[OF assms] no_reserved_def reserved_headers_def
  by (simp add: AList.delete_conv')

text \<open>
  C6. Reserved headers are stripped. Whatever the request and whether the directives parse
  or not, every call \<open>Do\<close> makes to the wrapped client carries a request with none of the
  four reserved headers, and when \<open>Do\<close> returns the request holds none of them.
\<close>

theorem directive_headers_stripped:
  assumes "wrapped c = recording t"
    and "Do c rq (s, log) = (out, rq', (s', log'))"
  shows "(\<exists>calls. log' = log @ calls \<and> (\<forall>x \<in> set calls. no_reserved (fst x)))
       \<and> ((\<exists>v. out = Returns v) \<longrightarrow> no_reserved rq')"
proof (cases "parseRequestHeaders c rq")
  case (Pair po rq1)
  show ?thesis
  proof (cases po)
    case (Panics p)
    then show ?thesis using Pair assms(2) unfolding Do_def by auto
  next
    case (Returns v)
    obtain d e where v: "v = (d, e)" by (cases v)
    have nr: "no_reserved rq1" using parseRequestHeaders_no_reserved Pair Returns by blast
    show ?thesis
    proof (cases e)
      case (Some err)
      then show ?thesis using Pair Returns v nr assms(2) unfolding Do_def by auto
    next
      case None
      obtain o2 st2 where d2: "do c rq1 (d_maxRetries d) (d_acceptableStatusCodes d) (s, log) = (o2, st2)"
        by (cases "do c rq1 (d_maxRetries d) (d_acceptableStatusCodes d) (s, log)")
      from do_loop_recording_log[OF assms(1) d2[unfolded do_def]]
      obtain calls where calls: "snd st2 = log @ calls" "\<forall>e\<in>set calls. fst e = rq1" by auto
      have "rq' = rq1 \<and> (s', log') = st2"
        using Pair Returns v None d2 assms(2) unfolding Do_def
        by (auto simp: Let_def split: outcome.splits prod.splits option.splits if_splits)
      then show ?thesis using calls nr by auto
    qed
  qed
qed


lemmas parse_eval = parseRequestHeaders_def parse_def get_request_def client_of_def
  header_defs atoi_defs errors_Join_def List.map_filter_simps

lemmas flaky_eval = Do_def parseRequestHeaders_def parse_def get_request_def flaky_client_def
  header_defs atoi_defs errors_Join_def List.map_filter_simps handle_def do_def
  do_loop.simps[of _ _ _ _ 2] do_loop.simps[of _ _ _ _ 1] recording_def flaky_def Let_def
  ok_response_def

theorem streaming_bypass_witness:
  "wrapped (flaky_client (ok_response (Reader (Stream [] None))))
     = recording (flaky (ok_response (Reader (Stream [] None))))
   \<and> parseRequestHeaders (flaky_client (ok_response (Reader (Stream [] None))))
       (get_request [(ResponseBodyRequiredHeader, [''true'']), (StreamResponseHeader, [''true''])])
     = (Returns (\<lparr>d_maxRetries = 2, d_acceptableStatusCodes = [200],
          d_responseBodyRequired = True, d_streamResponse = True\<rparr>, None), get_request [])
   \<and> Do (flaky_client (ok_response (Reader (Stream [] None))))
       (get_request [(ResponseBodyRequiredHeader, [''true'']), (StreamResponseHeader, [''true''])])
       (0, [])
     = (Returns (Some (ok_response (Reader (Stream [] None))), None), get_request [],
        (2, [] @ [(get_request [], (None, Some (Plain ''connection refused''))),
                  (get_request [], (Some (ok_response (Reader (Stream [] None))), None))]))"
proof -
  let ?r = "ok_response (Reader (Stream [] None))"
  let ?rq = "get_request [(ResponseBodyRequiredHeader, [''true'']), (StreamResponseHeader, [''true''])]"
  let ?d = "\<lparr>d_maxRetries = 2, d_acceptableStatusCodes = [200],
          d_responseBodyRequired = True, d_streamResponse = True\<rparr>"
  let ?calls = "[(get_request [], (None, Some (Plain ''connection refused''))),
                 (get_request [], (Some ?r, None))]"
  have h1: "wrapped (flaky_client ?r) = recording (flaky ?r)" by (simp add: flaky_client_def)
  have h2: "parseRequestHeaders (flaky_client ?r) ?rq = (Returns (?d, None), get_request [])"
    by (simp add: flaky_eval)
  have h3: "map_of (Header ?rq) StreamResponseHeader = Some (''true'' # [])"
    by (simp add: get_request_def header_defs)
  have h4: "Do (flaky_client ?r) ?rq (0, [])
      = (Returns (Some ?r, None), get_request [], (2, [] @ ?calls))"
    by (simp add: flaky_eval)
  have h5: "snd (last ?calls) = (Some ?r, None)" by simp
  have h6: "(word_of_int (StatusCode ?r) :: uint) \<in> set (d_acceptableStatusCodes ?d)"
    by (simp add: ok_response_def)
  from streaming_bypass[OF h1 h2 h3 h4 h5 h6] show ?thesis using h1 h2 h4 by simp
qed

theorem body_materialization_witness:
  "wrapped (flaky_client (ok_response (Reader (Stream ''hello'' None))))
     = recording (flaky (ok_response (Reader (Stream ''hello'' None))))
   \<and> parseRequestHeaders (flaky_client (ok_response (Reader (Stream ''hello'' None))))
       (get_request [])
     = (Returns (\<lparr>d_maxRetries = 2, d_acceptableStatusCodes = [200],
          d_responseBodyRequired = False, d_streamResponse = False\<rparr>, None), get_request [])
   \<and> ioReadAll (RespBody (ok_response (Reader (Stream ''hello'' None))))
     = Returns (''hello'', None)
   \<and> Do (flaky_client (ok_response (Reader (Stream ''hello'' None)))) (get_request []) (0, [])
     = (Returns (Some ((ok_response (Reader (Stream ''hello'' None)))
                   \<lparr>ContentLength := 5, RespBody := Reader (NopCloser ''hello'')\<rparr>), None),
        get_request [],
        (2, [] @ [(get_request [], (None, Some (Plain ''connection refused''))),
                  (get_request [], (Some (ok_response (Reader (Stream ''hello'' None))), None))]))"
proof -
  let ?r = "ok_response (Reader (Stream ''hello'' None))"
  let ?d = "\<lparr>d_maxRetries = 2, d_acceptableStatusCodes = [200],
          d_responseBodyRequired = False, d_streamResponse = False\<rparr>"
  let ?calls = "[(get_request [], (None, Some (Plain ''connection refused''))),
                 (get_request [], (Some ?r, None))]"
  have h1: "wrapped (flaky_client ?r) = recording (flaky ?r)" by (simp add: flaky_client_def)
  have h2: "parseRequestHeaders (flaky_client ?r) (get_request [])
      = (Returns (?d, None), get_request [])"
    by (simp add: flaky_eval)
  have h3: "\<not> (\<exists>vs. map_of (Header (get_request [])) StreamResponseHeader = Some (''true'' # vs))"
    by (simp add: get_request_def)
  have h4: "Do (flaky_client ?r) (get_request []) (0, [])
      = (Returns (Some (?r\<lparr>ContentLength := 5, RespBody := Reader (NopCloser ''hello'')\<rparr>), None),
         get_request [], (2, [] @ ?calls))"
    by (simp add: flaky_eval)
  have h5: "snd (last ?calls) = (Some ?r, None)" by simp
  have h6: "(word_of_int (StatusCode ?r) :: uint) \<in> set (d_acceptableStatusCodes ?d)"
    by (simp add: ok_response_def)
  have h7: "ioReadAll (RespBody ?r) = Returns (''hello'', None)" by (simp add: ok_response_def)
  have h8: "''hello'' \<noteq> []" by simp
  from body_materialization[OF h1 h2 h3 h4 h5 h6 h7 h8] show ?thesis using h1 h2 h4 h7 by simp
qed

theorem empty_body_is_NoBody_witness:
  "wrapped (flaky_client (ok_response (Reader (Stream [] None))))
     = recording (flaky (ok_response (Reader (Stream [] None))))
   \<and> parseRequestHeaders (flaky_client (ok_response (Reader (Stream [] None)))) (get_request [])
     = (Returns (\<lparr>d_maxRetries = 2, d_acceptableStatusCodes = [200],
          d_responseBodyRequired = False, d_streamResponse = False\<rparr>, None), get_request [])
   \<and> ioReadAll (RespBody (ok_response (Reader (Stream [] None)))) = Returns ([], None)
   \<and> Do (flaky_client (ok_response (Reader (Stream [] None)))) (get_request []) (0, [])
     = (Returns (Some ((ok_response (Reader (Stream [] None)))
                   \<lparr>ContentLength := 0, RespBody := NoBody\<rparr>), None),
        get_request [],
        (2, [] @ [(get_request [], (None, Some (Plain ''connection refused''))),
                  (get_request [], (Some (ok_response (Reader (Stream [] None))), None))]))"
proof -
  let ?r = "ok_response (Reader (Stream [] None))"
  let ?d = "\<lparr>d_maxRetries = 2, d_acceptableStatusCodes = [200],
          d_responseBodyRequired = False, d_streamResponse = False\<rparr>"
  let ?calls = "[(get_request [], (None, Some (Plain ''connection refused''))),
                 (get_request [], (Some ?r, None))]"
  have h1: "wrapped (flaky_client ?r) = recording (flaky ?r)" by (simp add: flaky_client_def)
  have h2: "parseRequestHeaders (flaky_client ?r) (get_request [])
      = (Returns (?d, None), get_request [])"
    by (simp add: flaky_eval)
  have h3: "\<not> (\<exists>vs. map_of (Header (get_request [])) StreamResponseHeader = Some (''true'' # vs))"
    by (simp add: get_request_def)
  have h3': "\<not> (\<exists>vs. map_of (Header (get_request [])) ResponseBodyRequiredHeader
                     = Some (''true'' # vs))"
    by (simp add: get_request_def)
  have h4: "Do (flaky_client ?r) (get_request []) (0, [])
      = (Returns (Some (?r\<lparr>ContentLength := 0, RespBody := NoBody\<rparr>), None),
         get_request [], (2, [] @ ?calls))"
    by (simp add: flaky_eval)
  have h5: "snd (last ?calls) = (Some ?r, None)" by simp
  have h6: "(word_of_int (StatusCode ?r) :: uint) \<in> set (d_acceptableStatusCodes ?d)"
    by (simp add: ok_response_def)
  have h7: "ioReadAll (RespBody ?r) = Returns ([], None)" by (simp add: ok_response_def)
  from empty_body_is_NoBody[OF h1 h2 h3 h3' h4 h5 h6 h7] show ?thesis using h1 h2 h4 h7 by simp
qed


theorem directive_headers_stripped_witness:
  "wrapped (client_of failing) = recording failing
   \<and> Do (client_of failing)
        (get_request [(MaxRetriesHeader, [''many'']), (StreamResponseHeader, [''true''])]) ((), [])
     = (Returns (None, Some (Errorf ''api: GET http://example.com/path: %w''
          [Join [Errorf ''%w: X-Blugnu-Http-Max-Retries: %w''
             [Sentinel ErrInvalidRequestHeader, Plain ''strconv.Atoi: invalid syntax'']]])),
        get_request [], ((), []))
   \<and> Do (client_of failing)
        (get_request [(MaxRetriesHeader, [''1'']), (StreamResponseHeader, [''true''])]) ((), [])
     = (Returns (None, Some (Errorf ''api: GET http://example.com/path: %w''
          [Wrap [Sentinel ErrMaxRetriesExceeded, Plain ''connection refused'']])),
        get_request [],
        ((), [(get_request [], (None, Some (Plain ''connection refused''))),
              (get_request [], (None, Some (Plain ''connection refused'')))]))
   \<and> no_reserved (get_request [])"
proof -
  have h1: "wrapped (client_of failing) = recording failing" by (simp add: client_of_def)
  have h2: "Do (client_of failing)
        (get_request [(MaxRetriesHeader, [''many'']), (StreamResponseHeader, [''true''])]) ((), [])
     = (Returns (None, Some (Errorf ''api: GET http://example.com/path: %w''
          [Join [Errorf ''%w: X-Blugnu-Http-Max-Retries: %w''
             [Sentinel ErrInvalidRequestHeader, Plain ''strconv.Atoi: invalid syntax'']]])),
        get_request [], ((), []))"
    by (simp add: Do_def parse_eval handle_def)
  have h3: "Do (client_of failing)
        (get_request [(MaxRetriesHeader, [''1'']), (StreamResponseHeader, [''true''])]) ((), [])
     = (Returns (None, Some (Errorf ''api: GET http://example.com/path: %w''
          [Wrap [Sentinel ErrMaxRetriesExceeded, Plain ''connection refused'']])),
        get_request [],
        ((), [(get_request [], (None, Some (Plain ''connection refused''))),
              (get_request [], (None, Some (Plain ''connection refused'')))]))"
    by (simp add: Do_def parse_eval handle_def do_def do_loop.simps[of _ _ _ _ 1]
      do_loop.simps[of _ _ _ _ 0] recording_def failing_def Let_def)
  from directive_headers_stripped[OF h1 h2] directive_headers_stripped[OF h1 h3]
  show ?thesis using h1 h2 h3 by simp
qed

lemma parse_pair_same:
  "parse (rq\<lparr>Header := AList.update k (v # vs) h\<rparr>) k fn cur
     = parse (rq\<lparr>Header := AList.update k [v] h\<rparr>) k fn cur"
  by (simp add: parse_def AList.update_conv' AList.delete_update_same)

lemma parse_pair_other:
  assumes "hdr \<noteq> k"
  shows "\<exists>out h'.
      parse (rq\<lparr>Header := AList.update k (v # vs) h\<rparr>) hdr fn cur
        = (out, rq\<lparr>Header := AList.update k (v # vs) h'\<rparr>)
    \<and> parse (rq\<lparr>Header := AList.update k [v] h\<rparr>) hdr fn cur
        = (out, rq\<lparr>Header := AList.update k [v] h'\<rparr>)"
  using assms
  by (auto simp: parse_def AList.update_conv' AList.delete_update Let_def
      split: option.splits list.splits sum.splits)


lemma parseRequestHeaders_pair:
  assumes "k \<in> set reserved_headers"
  shows "fst (parseRequestHeaders c (rq\<lparr>Header := AList.update k (v # vs) h\<rparr>))
           = fst (parseRequestHeaders c (rq\<lparr>Header := AList.update k [v] h\<rparr>))
       \<and> ((\<exists>x. fst (parseRequestHeaders c (rq\<lparr>Header := AList.update k (v # vs) h\<rparr>)) = Returns x)
            \<longrightarrow> snd (parseRequestHeaders c (rq\<lparr>Header := AList.update k (v # vs) h\<rparr>))
              = snd (parseRequestHeaders c (rq\<lparr>Header := AList.update k [v] h\<rparr>)))"
proof -
  consider "k = MaxRetriesHeader" | "k = AcceptStatusHeader"
    | "k = ResponseBodyRequiredHeader" | "k = StreamResponseHeader"
    using assms by (auto simp: reserved_headers_def)
  then show ?thesis
  proof cases
    case 1
    have s: "parse (rq\<lparr>Header := AList.update k (v # vs) h\<rparr>) MaxRetriesHeader
               parse_maxRetries (maxRetries c)
           = parse (rq\<lparr>Header := AList.update k [v] h\<rparr>) MaxRetriesHeader
               parse_maxRetries (maxRetries c)"
      unfolding 1[symmetric] by (rule parse_pair_same)
    show ?thesis
      unfolding parseRequestHeaders_def s by simp
  next
    case 2
    have n1: "MaxRetriesHeader \<noteq> k" unfolding 2 by (simp add: header_defs)
    from parse_pair_other[OF n1, where rq=rq and v=v and vs=vs and h=h and fn=parse_maxRetries and cur="maxRetries c"]
    obtain out1 h1 where
      a1: "parse (rq\<lparr>Header := AList.update k (v # vs) h\<rparr>) MaxRetriesHeader parse_maxRetries
             (maxRetries c) = (out1, rq\<lparr>Header := AList.update k (v # vs) h1\<rparr>)"
      and b1: "parse (rq\<lparr>Header := AList.update k [v] h\<rparr>) MaxRetriesHeader parse_maxRetries
             (maxRetries c) = (out1, rq\<lparr>Header := AList.update k [v] h1\<rparr>)"
      by blast
    have s: "parse (rq\<lparr>Header := AList.update k (v # vs) h1\<rparr>) AcceptStatusHeader
               (parse_acceptStatus [200]) [200]
           = parse (rq\<lparr>Header := AList.update k [v] h1\<rparr>) AcceptStatusHeader
               (parse_acceptStatus [200]) [200]"
      unfolding 2[symmetric] by (rule parse_pair_same)
    show ?thesis
      unfolding parseRequestHeaders_def a1 b1
      by (cases out1) (auto simp: s split: prod.splits outcome.splits)
  next
    case 3
    have n1: "MaxRetriesHeader \<noteq> k" and n2: "AcceptStatusHeader \<noteq> k"
      unfolding 3 by (simp_all add: header_defs)
    from parse_pair_other[OF n1, where rq=rq and v=v and vs=vs and h=h and fn=parse_maxRetries and cur="maxRetries c"]
    obtain out1 h1 where
      a1: "parse (rq\<lparr>Header := AList.update k (v # vs) h\<rparr>) MaxRetriesHeader parse_maxRetries
             (maxRetries c) = (out1, rq\<lparr>Header := AList.update k (v # vs) h1\<rparr>)"
      and b1: "parse (rq\<lparr>Header := AList.update k [v] h\<rparr>) MaxRetriesHeader parse_maxRetries
             (maxRetries c) = (out1, rq\<lparr>Header := AList.update k [v] h1\<rparr>)"
      by blast
    from parse_pair_other[OF n2, where rq=rq and v=v and vs=vs and h=h1 and fn="parse_acceptStatus [200]" and cur="[200]"]
    obtain out2 h2 where
      a2: "parse (rq\<lparr>Header := AList.update k (v # vs) h1\<rparr>) AcceptStatusHeader
             (parse_acceptStatus [200]) [200] = (out2, rq\<lparr>Header := AList.update k (v # vs) h2\<rparr>)"
      and b2: "parse (rq\<lparr>Header := AList.update k [v] h1\<rparr>) AcceptStatusHeader
             (parse_acceptStatus [200]) [200] = (out2, rq\<lparr>Header := AList.update k [v] h2\<rparr>)"
      by blast
    have s: "parse (rq\<lparr>Header := AList.update k (v # vs) h2\<rparr>) ResponseBodyRequiredHeader
               (\<lambda>s. Inr (s = ''true'')) False
           = parse (rq\<lparr>Header := AList.update k [v] h2\<rparr>) ResponseBodyRequiredHeader
               (\<lambda>s. Inr (s = ''true'')) False"
      unfolding 3[symmetric] by (rule parse_pair_same)
    show ?thesis
      unfolding parseRequestHeaders_def a1 b1
      by (cases out1; cases out2) (auto simp: a2 b2 s split: prod.splits outcome.splits)
  next
    case 4
    have n1: "MaxRetriesHeader \<noteq> k" and n2: "AcceptStatusHeader \<noteq> k"
      and n3: "ResponseBodyRequiredHeader \<noteq> k"
      unfolding 4 by (simp_all add: header_defs)
    from parse_pair_other[OF n1, where rq=rq and v=v and vs=vs and h=h and fn=parse_maxRetries and cur="maxRetries c"]
    obtain out1 h1 where
      a1: "parse (rq\<lparr>Header := AList.update k (v # vs) h\<rparr>) MaxRetriesHeader parse_maxRetries
             (maxRetries c) = (out1, rq\<lparr>Header := AList.update k (v # vs) h1\<rparr>)"
      and b1: "parse (rq\<lparr>Header := AList.update k [v] h\<rparr>) MaxRetriesHeader parse_maxRetries
             (maxRetries c) = (out1, rq\<lparr>Header := AList.update k [v] h1\<rparr>)"
      by blast
    from parse_pair_other[OF n2, where rq=rq and v=v and vs=vs and h=h1 and fn="parse_acceptStatus [200]" and cur="[200]"]
    obtain out2 h2 where
      a2: "parse (rq\<lparr>Header := AList.update k (v # vs) h1\<rparr>) AcceptStatusHeader
             (parse_acceptStatus [200]) [200] = (out2, rq\<lparr>Header := AList.update k (v # vs) h2\<rparr>)"
      and b2: "parse (rq\<lparr>Header := AList.update k [v] h1\<rparr>) AcceptStatusHeader
             (parse_acceptStatus [200]) [200] = (out2, rq\<lparr>Header := AList.update k [v] h2\<rparr>)"
      by blast
    from parse_pair_other[OF n3, where rq=rq and v=v and vs=vs and h=h2 and fn="\<lambda>s. Inr (s = ''true'')" and cur=False]
    obtain out3 h3 where
      a3: "parse (rq\<lparr>Header := AList.update k (v # vs) h2\<rparr>) ResponseBodyRequiredHeader
             (\<lambda>s. Inr (s = ''true'')) False = (out3, rq\<lparr>Header := AList.update k (v # vs) h3\<rparr>)"
      and b3: "parse (rq\<lparr>Header := AList.update k [v] h2\<rparr>) ResponseBodyRequiredHeader
             (\<lambda>s. Inr (s = ''true'')) False = (out3, rq\<lparr>Header := AList.update k [v] h3\<rparr>)"
      by blast
    have s: "parse (rq\<lparr>Header := AList.update k (v # vs) h3\<rparr>) StreamResponseHeader
               (\<lambda>s. Inr (s = ''true'')) False
           = parse (rq\<lparr>Header := AList.update k [v] h3\<rparr>) StreamResponseHeader
               (\<lambda>s. Inr (s = ''true'')) False"
      unfolding 4[symmetric] by (rule parse_pair_same)
    show ?thesis
      unfolding parseRequestHeaders_def a1 b1
      by (cases out1; cases out2; cases out3)
         (auto simp: a2 b2 a3 b3 s split: prod.splits outcome.splits)
  qed
qed

text \<open>
  C10. Only the first value of a reserved header is read. For a reserved header that
  holds the values \<open>v, vs\<close>, parsing the directives gives the same outcome (the same
  directives, the same error, the same panic) as for the header holding \<open>v\<close> alone,
  whatever the later values \<open>vs\<close> are; and when the parse returns, the request it leaves
  is the same in both cases and no longer holds the header, so all its values are gone.
\<close>

theorem first_value_only:
  assumes "k \<in> set reserved_headers"
  shows "fst (parseRequestHeaders c (rq\<lparr>Header := AList.update k (v # vs) (Header rq)\<rparr>))
           = fst (parseRequestHeaders c (rq\<lparr>Header := AList.update k [v] (Header rq)\<rparr>))
       \<and> ((\<exists>x. fst (parseRequestHeaders c (rq\<lparr>Header := AList.update k (v # vs) (Header rq)\<rparr>))
                 = Returns x)
            \<longrightarrow> snd (parseRequestHeaders c (rq\<lparr>Header := AList.update k (v # vs) (Header rq)\<rparr>))
                  = snd (parseRequestHeaders c (rq\<lparr>Header := AList.update k [v] (Header rq)\<rparr>))
              \<and> map_of (Header (snd (parseRequestHeaders c
                    (rq\<lparr>Header := AList.update k (v # vs) (Header rq)\<rparr>)))) k = None)"
proof -
  let ?A = "parseRequestHeaders c (rq\<lparr>Header := AList.update k (v # vs) (Header rq)\<rparr>)"
  have "map_of (Header (snd ?A)) k = None" if "fst ?A = Returns x" for x
  proof -
    have "?A = (Returns x, snd ?A)" using that by (simp add: prod_eq_iff)
    from parseRequestHeaders_no_reserved[OF this] show ?thesis
      using assms by (simp add: no_reserved_def)
  qed
  then show ?thesis using parseRequestHeaders_pair[OF assms, where c=c and rq=rq and v=v and vs=vs and h="Header rq"] by blast
qed


lemmas json_defs = Unmarshal_uints_def Unmarshal_ints_def json_value_def is_space_def flush_def
  classify_def conv_uint_def conv_int_def parse_acceptStatus_def Let_def

theorem first_value_only_witness:
  "AcceptStatusHeader \<in> set reserved_headers
   \<and> parseRequestHeaders (client_of failing)
         (get_request [(AcceptStatusHeader, [''[200,404]'', ''not json''])])
     = (Returns (\<lparr>d_maxRetries = 2, d_acceptableStatusCodes = [200, 404],
          d_responseBodyRequired = False, d_streamResponse = False\<rparr>, None), get_request [])
   \<and> parseRequestHeaders (client_of failing) (get_request [(AcceptStatusHeader, [''[200,404]''])])
     = (Returns (\<lparr>d_maxRetries = 2, d_acceptableStatusCodes = [200, 404],
          d_responseBodyRequired = False, d_streamResponse = False\<rparr>, None), get_request [])"
proof -
  have h1: "AcceptStatusHeader \<in> set reserved_headers" by (simp add: reserved_headers_def)
  have h2: "parseRequestHeaders (client_of failing)
         (get_request [(AcceptStatusHeader, [''[200,404]'', ''not json''])])
     = (Returns (\<lparr>d_maxRetries = 2, d_acceptableStatusCodes = [200, 404],
          d_responseBodyRequired = False, d_streamResponse = False\<rparr>, None), get_request [])"
    by (simp add: parse_eval json_defs)
  from first_value_only[OF h1, where c="client_of failing" and rq="get_request []"
      and v="''[200,404]''" and vs="[''not json'']"]
  show ?thesis using h1 h2 by (simp add: get_request_def prod_eq_iff)
qed

section \<open>Properties of the accept-status option\<close>

lemmas marshal_defs = Marshal_ints_def Itoa_def digits_of.simps append_slice_def

lemma AcceptStatus_fresh:
  assumes "map_of (Header rq) AcceptStatusHeader = None"
  shows "AcceptStatus [404] rq
    = (Returns None, rq\<lparr>Header := AList.update AcceptStatusHeader [''[200,404]''] (Header rq)\<rparr>)"
  using assms by (simp add: AcceptStatus_def marshal_defs)

lemma AcceptStatus_second:
  assumes "map_of (Header rq) AcceptStatusHeader = Some [''[200,404]'']"
  shows "AcceptStatus [401] rq
    = (Returns None, rq\<lparr>Header := AList.update AcceptStatusHeader [''[200,404,401]''] (Header rq)\<rparr>)"
  using assms by (simp add: AcceptStatus_def marshal_defs json_defs atoi_defs)

lemma parse_acceptStatus_eval:
  "parse_acceptStatus [200] ''[200,404,401]'' = Inr [200, 404, 401]"
  by (simp add: json_defs atoi_defs)

lemma parseRequestHeaders_acceptStatus:
  assumes "parseRequestHeaders c rq = (Returns (d, e), rq')"
    and "map_of (Header rq) AcceptStatusHeader = Some (v # vs)"
    and "parse_acceptStatus [200] v = Inr codes"
  shows "d_acceptableStatusCodes d = codes"
proof -
  from parseRequestHeaders_Returns[OF assms(1)] obtain e1 e2 rq1 rq2 where
    p1: "parse rq MaxRetriesHeader parse_maxRetries (maxRetries c)
           = (Returns (e1, d_maxRetries d), rq1)"
    and p2: "parse rq1 AcceptStatusHeader (parse_acceptStatus [200]) [200]
           = (Returns (e2, d_acceptableStatusCodes d), rq2)"
    by blast
  have "map_of (Header rq1) AcceptStatusHeader = Some (v # vs)"
    unfolding parse_Header[OF p1] using assms(2)
    by (simp add: AList.delete_conv' header_defs)
  then show ?thesis using p2 assms(3) by (simp add: parse_def)
qed

text \<open>
  C2. Accept-status accumulation. On a request that holds no accept-status header yet,
  \<open>AcceptStatus(404)\<close> writes the header \<open>[200,404]\<close> and \<open>AcceptStatus(401)\<close> after it
  reads that list back and writes \<open>[200,404,401]\<close>: each application appends to the codes
  that are there, the default 200 first. Whenever the engine then parses the directives
  of the request, the acceptable status codes are 200, 404, 401, the set {200, 401, 404}.
  \<open>AcceptStatus_appends\<close> and \<open>AcceptStatus_accumulates\<close> below show the same for any
  codes.
\<close>

theorem accept_status_accumulation:
  assumes "map_of (Header rq) AcceptStatusHeader = None"
  shows "\<exists>rq1 rq2.
      AcceptStatus [404] rq = (Returns None, rq1)
    \<and> map_of (Header rq1) AcceptStatusHeader = Some [''[200,404]'']
    \<and> AcceptStatus [401] rq1 = (Returns None, rq2)
    \<and> map_of (Header rq2) AcceptStatusHeader = Some [''[200,404,401]'']
    \<and> (\<forall>c d e rq'. parseRequestHeaders c rq2 = (Returns (d, e), rq')
           \<longrightarrow> d_acceptableStatusCodes d = [200, 404, 401]
             \<and> set (d_acceptableStatusCodes d) = {200, 401, 404})"
proof -
  let ?rq1 = "rq\<lparr>Header := AList.update AcceptStatusHeader [''[200,404]''] (Header rq)\<rparr>"
  let ?rq2 = "?rq1\<lparr>Header := AList.update AcceptStatusHeader [''[200,404,401]''] (Header ?rq1)\<rparr>"
  have m1: "map_of (Header ?rq1) AcceptStatusHeader = Some [''[200,404]'']"
    by (simp add: AList.update_conv')
  have m2: "map_of (Header ?rq2) AcceptStatusHeader = Some [''[200,404,401]'']"
    by (simp add: AList.update_conv')
  have p: "d_acceptableStatusCodes d = [200, 404, 401]
             \<and> set (d_acceptableStatusCodes d) = {200, 401, 404}"
    if "parseRequestHeaders c ?rq2 = (Returns (d, e), rq')" for c :: "'a client" and d e rq'
    using parseRequestHeaders_acceptStatus[OF that m2 parse_acceptStatus_eval] by auto
  show ?thesis
    using AcceptStatus_fresh[OF assms] AcceptStatus_second[OF m1] m1 m2 p by blast
qed

theorem accept_status_accumulation_witness:
  "map_of (Header (get_request [])) AcceptStatusHeader = None
   \<and> AcceptStatus [404] (get_request []) = (Returns None, get_request [(AcceptStatusHeader, [''[200,404]''])])
   \<and> AcceptStatus [401] (get_request [(AcceptStatusHeader, [''[200,404]''])])
       = (Returns None, get_request [(AcceptStatusHeader, [''[200,404,401]''])])
   \<and> parseRequestHeaders (client_of failing) (get_request [(AcceptStatusHeader, [''[200,404,401]''])])
       = (Returns (\<lparr>d_maxRetries = 2, d_acceptableStatusCodes = [200, 404, 401],
            d_responseBodyRequired = False, d_streamResponse = False\<rparr>, None), get_request [])
   \<and> set [200, 404, 401 :: uint] = {200, 401, 404}"
proof -
  have h: "map_of (Header (get_request [])) AcceptStatusHeader = None"
    by (simp add: get_request_def)
  have a1: "AcceptStatus [404] (get_request [])
      = (Returns None, get_request [(AcceptStatusHeader, [''[200,404]''])])"
    by (simp add: AcceptStatus_def marshal_defs get_request_def)
  have a2: "AcceptStatus [401] (get_request [(AcceptStatusHeader, [''[200,404]''])])
       = (Returns None, get_request [(AcceptStatusHeader, [''[200,404,401]''])])"
    by (simp add: AcceptStatus_def marshal_defs json_defs atoi_defs get_request_def)
  have p: "parseRequestHeaders (client_of failing) (get_request [(AcceptStatusHeader, [''[200,404,401]''])])
       = (Returns (\<lparr>d_maxRetries = 2, d_acceptableStatusCodes = [200, 404, 401],
            d_responseBodyRequired = False, d_streamResponse = False\<rparr>, None), get_request [])"
    by (simp add: parse_eval json_defs)
  from accept_status_accumulation[OF h] show ?thesis using h a1 a2 p by auto
qed

section \<open>Properties of the mock client\<close>

lemma mock_Do_unexpected:
  assumes "nxt mock = noExpectedRequests
         \<or> int (length (expectations mock)) \<le> nxt mock
         \<or> (0 \<le> nxt mock \<and> nxt mock < int (length (expectations mock))
             \<and> \<not> isExpected (expectations mock ! nat (nxt mock)))"
  shows "fst (mock_Do ev mock rq) = Returns (None, Some (Sentinel ErrUnexpectedRequest))
       \<and> unexpected (snd (mock_Do ev mock rq)) = unexpected mock @ [rq]"
  using assms by (auto simp: mock_Do_def Let_def)

lemma mock_wf_no_expectations:
  "mock_wf mock \<Longrightarrow> expectations mock = [] \<Longrightarrow> nxt mock = noExpectedRequests"
  by (simp add: mock_wf_def)

lemma mock_wf_NewMockClient: "mock_wf (NewMockClient n)"
  by (simp add: mock_wf_def NewMockClient_def)

lemma mock_wf_Reset: "mock_wf (Reset mock)"
  by (simp add: mock_wf_def Reset_def)

lemma mock_wf_Expect: "mock_wf mock \<Longrightarrow> mock_wf (snd (Expect ev mock meth path))"
  by (auto simp: mock_wf_def Expect_def Let_def noExpectedRequests_def split: sum.splits if_splits)

lemma mock_wf_Do: "mock_wf mock \<Longrightarrow> mock_wf (snd (mock_Do ev mock rq))"
  by (auto simp: mock_wf_def mock_Do_def Let_def noExpectedRequests_def split: if_splits)

lemma mock_wf_configure: "mock_wf mock \<Longrightarrow> mock_wf (configure i f mock)"
  by (auto simp: mock_wf_def configure_def)

text \<open>
  C7. Unexpected requests are recorded. In a state the mock can reach, when a request
  reaches \<open>Do\<close> and no expectation is configured, or the cursor is past the last
  expectation, or the expectation at the cursor is marked as not expected, \<open>Do\<close> returns
  no response and the error \<open>ErrUnexpectedRequest\<close>, and the list of unexpected requests
  is the list before the call with this one request appended.
\<close>

theorem unexpected_request_recorded:
  assumes "mock_wf mock"
    and "expectations mock = []
       \<or> int (length (expectations mock)) \<le> nxt mock
       \<or> \<not> isExpected (expectations mock ! nat (nxt mock))"
  shows "fst (mock_Do ev mock rq) = Returns (None, Some (Sentinel ErrUnexpectedRequest))
       \<and> unexpected (snd (mock_Do ev mock rq)) = unexpected mock @ [rq]"
proof (rule mock_Do_unexpected)
  show "nxt mock = noExpectedRequests
         \<or> int (length (expectations mock)) \<le> nxt mock
         \<or> (0 \<le> nxt mock \<and> nxt mock < int (length (expectations mock))
             \<and> \<not> isExpected (expectations mock ! nat (nxt mock)))"
    using assms by (auto simp: mock_wf_def split: if_splits)
qed

lemma Expect_panics_when_started:
  assumes "nxt mock > 0"
  shows "\<exists>e. fst (Expect ev mock meth path) = Panics (PanicError e)
           \<and> errors_Is e (Sentinel ErrCannotChangeExpectations)"
  using assms by (simp add: Expect_def)

lemma Expect_panics_after_matched_request:
  assumes "0 \<le> nxt mock" and "nxt mock < int (length (expectations mock))"
  shows "\<exists>e. fst (Expect ev (snd (mock_Do ev mock rq)) meth path) = Panics (PanicError e)
           \<and> errors_Is e (Sentinel ErrCannotChangeExpectations)"
proof -
  have "nxt (snd (mock_Do ev mock rq)) > 0"
    using assms by (auto simp: mock_Do_def Let_def noExpectedRequests_def)
  then show ?thesis by (rule Expect_panics_when_started)
qed

lemma Expect_returns_after_unexpected_request:
  assumes "JoinPath ev ''mock://hostname'' path = Inr fqu"
  shows "\<exists>e m. Expect ev (snd (mock_Do ev (NewMockClient n) rq)) meth path = (Returns e, m)
           \<and> expectations m = [e] \<and> unexpected m = [rq] \<and> nxt m = 0"
  using assms
  by (simp add: mock_Do_def NewMockClient_def Expect_def noExpectedRequests_def Let_def)

lemma Do_without_expectations_keeps_cursor:
  "nxt (snd (mock_Do ev (NewMockClient n) rq)) = noExpectedRequests
   \<and> unexpected (snd (mock_Do ev (NewMockClient n) rq)) = [rq]"
  by (simp add: mock_Do_def NewMockClient_def)

text \<open>
  C3. Expectations after a request. A mock without expectations that has received a
  request keeps the sentinel as its cursor, and \<open>Expect\<close> tests \<open>mock.next > 0\<close>: the
  call returns the new expectation and appends it, where the comment of \<open>Expect\<close> says
  it panics once the mock has received a request. With an expectation at the cursor the
  request moves the cursor above zero and \<open>Expect\<close> panics
  (\<open>Expect_panics_after_matched_request\<close>).
\<close>

theorem expect_after_unexpected_request:
  "mock_Do example_env (NewMockClient ''mock'') (get_request [])
     = (Returns (None, Some (Sentinel ErrUnexpectedRequest)),
        \<lparr>mc_name = ''mock'', hostname = ''mock://hostname'', expectations = [],
         unexpected = [get_request []], nxt = noExpectedRequests\<rparr>)
   \<and> Expect example_env (snd (mock_Do example_env (NewMockClient ''mock'') (get_request [])))
          ''GET'' ''/path''
     = (Returns \<lparr>index = 0, mr_method = Some ''GET'', body = None,
                 mr_url = ''mock://hostname/path'', headers = [], actual = None,
                 isExpected = True, Response = None\<rparr>,
        \<lparr>mc_name = ''mock'', hostname = ''mock://hostname'',
         expectations = [\<lparr>index = 0, mr_method = Some ''GET'', body = None,
                 mr_url = ''mock://hostname/path'', headers = [], actual = None,
                 isExpected = True, Response = None\<rparr>],
         unexpected = [get_request []], nxt = 0\<rparr>)"
  by (simp add: mock_Do_def NewMockClient_def Expect_def example_env_def noExpectedRequests_def
      Let_def)

lemmas mock_eval = mock_Do_def NewMockClient_def Expect_def example_env_def noExpectedRequests_def
  Let_def configure_def WillNotBeCalled_def

theorem unexpected_request_recorded_witness:
  "mock_wf (NewMockClient ''mock'') \<and> expectations (NewMockClient ''mock'') = []
   \<and> mock_Do example_env (NewMockClient ''mock'') (get_request [])
       = (Returns (None, Some (Sentinel ErrUnexpectedRequest)),
          (NewMockClient ''mock'')\<lparr>unexpected := [get_request []]\<rparr>)
   \<and> mock_wf (configure 0 WillNotBeCalled
           (snd (Expect example_env (NewMockClient ''mock'') ''GET'' ''/path'')))
   \<and> \<not> isExpected (expectations (configure 0 WillNotBeCalled
           (snd (Expect example_env (NewMockClient ''mock'') ''GET'' ''/path''))) ! 0)
   \<and> fst (mock_Do example_env (configure 0 WillNotBeCalled
           (snd (Expect example_env (NewMockClient ''mock'') ''GET'' ''/path''))) (get_request []))
       = Returns (None, Some (Sentinel ErrUnexpectedRequest))
   \<and> unexpected (snd (mock_Do example_env (configure 0 WillNotBeCalled
           (snd (Expect example_env (NewMockClient ''mock'') ''GET'' ''/path''))) (get_request [])))
       = [get_request []]"
proof -
  let ?m0 = "NewMockClient ''mock''"
  let ?m1 = "configure 0 WillNotBeCalled (snd (Expect example_env ?m0 ''GET'' ''/path''))"
  have w0: "mock_wf ?m0" by (simp add: mock_wf_def NewMockClient_def)
  have h0: "expectations ?m0 = []
         \<or> int (length (expectations ?m0)) \<le> nxt ?m0
         \<or> \<not> isExpected (expectations ?m0 ! nat (nxt ?m0))"
    by (simp add: NewMockClient_def)
  have w1: "mock_wf ?m1" by (simp add: mock_wf_def mock_eval)
  have h1: "expectations ?m1 = []
         \<or> int (length (expectations ?m1)) \<le> nxt ?m1
         \<or> \<not> isExpected (expectations ?m1 ! nat (nxt ?m1))"
    by (simp add: mock_eval)
  have u1: "unexpected ?m1 = []" by (simp add: mock_eval)
  have e1: "\<not> isExpected (expectations ?m1 ! 0)" by (simp add: mock_eval)
  from unexpected_request_recorded[OF w0 h0, of example_env "get_request []"]
       unexpected_request_recorded[OF w1 h1, of example_env "get_request []"]
  show ?thesis using w0 w1 u1 e1 by (simp add: NewMockClient_def mock_Do_def)
qed

lemma obind_Returns_iff:
  "obind m f = Returns y \<longleftrightarrow> (\<exists>x. m = Returns x \<and> f x = Returns y)"
  by (cases m) (simp_all add: obind_def)

lemma check_reports_length:
  "check_reports bs rqs = Returns rs \<Longrightarrow> length rs = length rqs"
proof (induction rqs arbitrary: bs rs)
  case Nil
  then show ?case by simp
next
  case (Cons rq rqs)
  obtain o1 bs1 where c: "checkExpectations bs rq = (o1, bs1)"
    by (cases "checkExpectations bs rq")
  show ?case
  proof (cases o1)
    case (Panics p)
    then show ?thesis using Cons.prems c by simp
  next
    case (Returns rpt)
    then obtain rest where "check_reports bs1 rqs = Returns rest" "rs = rpt # rest"
      using Cons.prems c by (auto simp: obind_Returns_iff)
    then show ?thesis using Cons.IH by auto
  qed
qed

lemma expectation_errors_reports:
  "fst (expectation_errors bs rqs)
     = obind (check_reports bs rqs) (\<lambda>rs. Returns (concat (map report_errors (zip rqs rs))))"
proof (induction rqs arbitrary: bs)
  case Nil
  show ?case by (simp add: obind_def)
next
  case (Cons rq rqs)
  obtain o1 bs1 where c: "checkExpectations bs rq = (o1, bs1)"
    by (cases "checkExpectations bs rq")
  show ?case
  proof (cases o1)
    case (Panics p)
    then show ?thesis using c by (simp add: obind_def)
  next
    case (Returns rpt)
    obtain o2 bs2 where e: "expectation_errors bs1 rqs = (o2, bs2)"
      by (cases "expectation_errors bs1 rqs")
    have IH: "o2 = obind (check_reports bs1 rqs)
                 (\<lambda>rs. Returns (concat (map report_errors (zip rqs rs))))"
      using Cons.IH[of bs1] e by simp
    show ?thesis
    proof (cases "check_reports bs1 rqs")
      case P: (Panics p)
      then show ?thesis using c Returns e IH by (simp add: obind_def)
    next
      case R: (Returns rest)
      then show ?thesis using c Returns e IH by (simp add: obind_def report_errors_def)
    qed
  qed
qed

lemma fst_ExpectationsWereMet:
  "fst (ExpectationsWereMet bs mock)
     = obind (check_reports bs (expectations mock)) (\<lambda>rs.
         Returns (if concat (map report_errors (zip (expectations mock) rs))
                     @ unexpected_errors (length (expectations mock)) (unexpected mock) \<noteq> []
                  then Some (MockExpectationsError (mc_name mock)
                         (concat (map report_errors (zip (expectations mock) rs))
                          @ unexpected_errors (length (expectations mock)) (unexpected mock)))
                  else None))"
proof -
  obtain o1 bs1 where e: "expectation_errors bs (expectations mock) = (o1, bs1)"
    by (cases "expectation_errors bs (expectations mock)")
  have o: "o1 = obind (check_reports bs (expectations mock))
                 (\<lambda>rs. Returns (concat (map report_errors (zip (expectations mock) rs))))"
    using expectation_errors_reports[of bs "expectations mock"] e by simp
  show ?thesis
    unfolding ExpectationsWereMet_def e
    by (cases "check_reports bs (expectations mock)") (simp_all add: o obind_def Let_def)
qed

lemma unexpected_errors_lists_all:
  assumes "ix < length rqs"
  shows "unexpected_line n ix (rqs ! ix) \<in> set (unexpected_errors n rqs)"
proof -
  have "(ix, rqs ! ix) \<in> set (enumerate 0 rqs)"
    using assms by (simp add: in_set_enumerate_eq)
  then show ?thesis unfolding unexpected_errors_def by force
qed

lemma unexpected_errors_Nil_iff: "unexpected_errors n rqs = [] \<longleftrightarrow> rqs = []"
  by (cases rqs) (simp_all add: unexpected_errors_def)

lemma report_errors_Nil_iff: "report_errors (rq, rpt) = [] \<longleftrightarrow> rpt = []"
  by (simp add: report_errors_def)

lemma concat_reports_Nil_iff:
  assumes "length rs = length rqs"
  shows "concat (map report_errors (zip rqs rs)) = [] \<longleftrightarrow> (\<forall>r \<in> set rs. r = [])"
  using assms
proof (induction rqs arbitrary: rs)
  case Nil
  then show ?case by simp
next
  case (Cons rq rqs)
  then obtain r rs' where "rs = r # rs'" by (cases rs) auto
  then show ?case using Cons by (auto simp: report_errors_Nil_iff)
qed

lemma ExpectationsWereMet_nil_iff:
  "fst (ExpectationsWereMet bs mock) = Returns None
     \<longleftrightarrow> (\<exists>rs. check_reports bs (expectations mock) = Returns rs \<and> (\<forall>r \<in> set rs. r = []))
         \<and> unexpected mock = []"
proof (cases "check_reports bs (expectations mock)")
  case (Panics p)
  then show ?thesis by (simp add: fst_ExpectationsWereMet obind_def)
next
  case (Returns rs)
  define C where "C = concat (map report_errors (zip (expectations mock) rs))"
  define U where "U = unexpected_errors (length (expectations mock)) (unexpected mock)"
  have "length rs = length (expectations mock)" using Returns by (rule check_reports_length)
  then have C: "C = [] \<longleftrightarrow> (\<forall>r \<in> set rs. r = [])"
    unfolding C_def by (rule concat_reports_Nil_iff)
  have U: "U = [] \<longleftrightarrow> unexpected mock = []"
    unfolding U_def by (rule unexpected_errors_Nil_iff)
  have "fst (ExpectationsWereMet bs mock)
      = Returns (if C @ U \<noteq> [] then Some (MockExpectationsError (mc_name mock) (C @ U))
                 else None)"
    using Returns unfolding C_def U_def by (simp add: fst_ExpectationsWereMet obind_def)
  then have "fst (ExpectationsWereMet bs mock) = Returns None \<longleftrightarrow> C = [] \<and> U = []"
    by simp
  then show ?thesis using C U Returns by simp
qed

lemma ExpectationsWereMet_returns_iff:
  "(\<exists>r. fst (ExpectationsWereMet bs mock) = Returns r)
     \<longleftrightarrow> (\<exists>rs. check_reports bs (expectations mock) = Returns rs)"
  by (cases "check_reports bs (expectations mock)")
     (simp_all add: fst_ExpectationsWereMet obind_def)

lemma ExpectationsWereMet_reports_all:
  assumes "fst (ExpectationsWereMet bs mock) = Returns (Some e)"
  shows "\<exists>errs rs. e = MockExpectationsError (mc_name mock) errs
       \<and> check_reports bs (expectations mock) = Returns rs
       \<and> length rs = length (expectations mock)
       \<and> (\<forall>i < length (expectations mock). rs ! i \<noteq> []
             \<longrightarrow> expecting_line (expectations mock ! i) \<in> set errs)
       \<and> (\<forall>ix < length (unexpected mock).
             unexpected_line (length (expectations mock)) ix (unexpected mock ! ix) \<in> set errs)"
proof (cases "check_reports bs (expectations mock)")
  case (Panics p)
  then show ?thesis using assms by (simp add: fst_ExpectationsWereMet obind_def)
next
  case (Returns rs)
  let ?errs = "concat (map report_errors (zip (expectations mock) rs))
               @ unexpected_errors (length (expectations mock)) (unexpected mock)"
  have l: "length rs = length (expectations mock)" using Returns by (rule check_reports_length)
  have e: "e = MockExpectationsError (mc_name mock) ?errs"
    using assms Returns by (simp add: fst_ExpectationsWereMet obind_def split: if_splits)
  have "expecting_line (expectations mock ! i) \<in> set ?errs"
    if "i < length (expectations mock)" "rs ! i \<noteq> []" for i
  proof -
    have "(expectations mock ! i, rs ! i) \<in> set (zip (expectations mock) rs)"
      using that(1) l by (simp add: in_set_zip) (metis)
    moreover have "expecting_line (expectations mock ! i)
        \<in> set (report_errors (expectations mock ! i, rs ! i))"
      using that(2) by (simp add: report_errors_def)
    ultimately show ?thesis by auto
  qed
  then show ?thesis using e Returns l unexpected_errors_lists_all by auto
qed

lemmas check_eval = ExpectationsWereMet_def checkExpectations_def checkHeadersExpectation_def
  checkBodyExpectation_def checkMethodExpectation_def checkURLExpectation_def obind_def
  expecting_line_def unexpected_line_def unexpected_errors_def enumerate_eq_zip
  ExpectGet_def WithBody_def Itoa_def digits_of.simps no_bodies_def

text \<open>
  C8. Verification reports every failure. \<open>ExpectationsWereMet\<close> returns nil exactly
  when every check, run in order, gives an empty report and no request was unexpected
  (\<open>ExpectationsWereMet_nil_iff\<close>), and an error it returns names every failing expectation
  and every unexpected request (\<open>ExpectationsWereMet_reports_all\<close>). It returns only when
  no check panics (\<open>ExpectationsWereMet_returns_iff\<close>), and the check of the body panics on
  a request without body: a mock expects a GET with the body \<open>payload\<close>, and a GET arrives
  whose \<open>Body\<close> is nil, as \<open>http.NewRequest\<close> leaves it when no body is given. The
  expectation is not met, and \<open>ExpectationsWereMet\<close> panics in \<open>io.ReadAll\<close> where its
  comment says it returns an error. With \<open>http.NoBody\<close> in place of nil the same
  expectation is reported.
\<close>

theorem expectations_check_panics_on_nil_body:
  "ExpectationsWereMet no_bodies
     (snd (mock_Do example_env
        (configure 0 (WithBody ''payload'')
           (snd (ExpectGet example_env (NewMockClient ''mock'') ''/orders'')))
        \<lparr>Method = ''GET'', URL = ''mock://hostname/orders'', Header = [], Body = NilBody\<rparr>))
     = (Panics (RuntimeError ''nil pointer dereference''), no_bodies)
   \<and> ExpectationsWereMet no_bodies
     (snd (mock_Do example_env
        (configure 0 (WithBody ''payload'')
           (snd (ExpectGet example_env (NewMockClient ''mock'') ''/orders'')))
        \<lparr>Method = ''GET'', URL = ''mock://hostname/orders'', Header = [], Body = NoBody\<rparr>))
     = (Returns (Some (MockExpectationsError ''mock''
         [Plain ''request #1: expecting: GET mock://hostname/orders'',
          Plain ''   expected: 7 bytes'',
          Plain ''      got  : <no body>''])), no_bodies)"
  by (simp add: mock_eval check_eval)

text \<open>
  The check of the body uses the reader up. A mock expects a GET with the body
  \<open>payload\<close> and receives it: the first verification returns nil and leaves the reader
  at its end, so a second verification reports the body as missing. Two expectations
  that recorded the same request (a request sent again holds the same reader) share it:
  the check of the first leaves nothing for the second.
\<close>

lemma ExpectationsWereMet_uses_up_body:
  "ExpectationsWereMet (no_bodies(0 := ''payload''))
     (snd (mock_Do example_env
        (configure 0 (WithBody ''payload'')
           (snd (ExpectGet example_env (NewMockClient ''mock'') ''/orders'')))
        \<lparr>Method = ''GET'', URL = ''mock://hostname/orders'', Header = [],
         Body = Reader 0\<rparr>))
     = (Returns None, no_bodies(0 := []))
   \<and> ExpectationsWereMet (no_bodies(0 := []))
     (snd (mock_Do example_env
        (configure 0 (WithBody ''payload'')
           (snd (ExpectGet example_env (NewMockClient ''mock'') ''/orders'')))
        \<lparr>Method = ''GET'', URL = ''mock://hostname/orders'', Header = [],
         Body = Reader 0\<rparr>))
     = (Returns (Some (MockExpectationsError ''mock''
         [Plain ''request #1: expecting: GET mock://hostname/orders'',
          Plain ''   expected: 7 bytes'',
          Plain ''      got  : <no body>''])), no_bodies(0 := []))"
  by (simp add: mock_eval check_eval)

lemma ExpectationsWereMet_shared_request:
  "ExpectationsWereMet (no_bodies(0 := ''payload''))
     (snd (mock_Do example_env
       (snd (mock_Do example_env
         (configure 1 (WithBody ''payload'')
           (snd (ExpectGet example_env
             (configure 0 (WithBody ''payload'')
               (snd (ExpectGet example_env (NewMockClient ''mock'') ''/orders'')))
             ''/orders'')))
         \<lparr>Method = ''GET'', URL = ''mock://hostname/orders'', Header = [],
          Body = Reader 0\<rparr>))
       \<lparr>Method = ''GET'', URL = ''mock://hostname/orders'', Header = [], Body = Reader 0\<rparr>))
     = (Returns (Some (MockExpectationsError ''mock''
         [Plain ''request #2: expecting: GET mock://hostname/orders'',
          Plain ''   expected: 7 bytes'',
          Plain ''      got  : <no body>''])), no_bodies(0 := []))"
  by (simp add: mock_eval check_eval defaultResponse_def)

section \<open>Marshalling a list of integers and reading it back\<close>

lemma digit_chars:
  "\<forall>d \<in> set [0..<10]. is_digit (''0123456789'' ! d) \<and> digit_val (''0123456789'' ! d) = d
      \<and> plain_char (''0123456789'' ! d) \<and> (d \<noteq> 0 \<longrightarrow> ''0123456789'' ! d \<noteq> CHR ''0'')
      \<and> ''0123456789'' ! d \<noteq> CHR ''-'' \<and> ''0123456789'' ! d \<noteq> CHR ''n''"
  by (simp add: upt_rec is_digit_def digit_val_def plain_char_def is_space_def)

lemma digit_char:
  assumes "d < 10"
  shows "is_digit (''0123456789'' ! d)" "digit_val (''0123456789'' ! d) = d"
    "plain_char (''0123456789'' ! d)" "d \<noteq> 0 \<Longrightarrow> ''0123456789'' ! d \<noteq> CHR ''0''"
    "''0123456789'' ! d \<noteq> CHR ''-''" "''0123456789'' ! d \<noteq> CHR ''n''"
  using digit_chars assms by auto

lemma digits_of_nonempty: "digits_of n \<noteq> []"
  by (subst digits_of.simps) simp

lemma digits_of_digits: "list_all (\<lambda>c. is_digit c \<and> plain_char c) (digits_of n)"
proof (induction n rule: digits_of.induct)
  case (1 n)
  show ?case
  proof (cases "n < 10")
    case True
    then show ?thesis by (subst digits_of.simps) (simp add: digit_char)
  next
    case False
    then show ?thesis using 1 by (subst digits_of.simps) (simp add: digit_char)
  qed
qed

lemma digits_value_snoc: "digits_value (ds @ [c]) = 10 * digits_value ds + digit_val c"
  by (simp add: digits_value_def)

lemma digits_value_digits_of: "digits_value (digits_of n) = n"
proof (induction n rule: digits_of.induct)
  case (1 n)
  show ?case
  proof (cases "n < 10")
    case True
    then show ?thesis by (subst digits_of.simps) (simp add: digit_char digits_value_def)
  next
    case False
    then show ?thesis using 1
      by (subst digits_of.simps) (simp add: digit_char digits_value_snoc)
  qed
qed

lemma hd_digits_of: "n \<noteq> 0 \<Longrightarrow> hd (digits_of n) \<noteq> CHR ''0''"
proof (induction n rule: digits_of.induct)
  case (1 n)
  show ?case
  proof (cases "n < 10")
    case True
    then have "digits_of n = [''0123456789'' ! n]" by (subst digits_of.simps) simp
    then show ?thesis using digit_char(4)[OF True] 1(2) by simp
  next
    case False
    then have "n div 10 \<noteq> 0" by simp
    then show ?thesis using 1 False
      by (subst digits_of.simps) (simp add: digits_of_nonempty)
  qed
qed

lemma digits_of_zero: "digits_of 0 = ''0''"
  by (subst digits_of.simps) simp

lemma hd_digits_of_is_digit: "is_digit (hd (digits_of n))"
  using digits_of_digits[of n] digits_of_nonempty[of n] by (cases "digits_of n") auto

lemma classify_Itoa: "classify (Itoa i) = Some (Lit (i < 0) (nat \<bar>i\<bar>))"
proof (cases "i < 0")
  case True
  have nn: "digits_of (nat (- i)) \<noteq> ''ull''"
    using hd_digits_of_is_digit[of "nat (- i)"] by (auto simp: is_digit_def)
  have d: "list_all is_digit (digits_of (nat (- i)))"
    using digits_of_digits[of "nat (- i)"] by (simp add: list_all_iff)
  have h: "hd (digits_of (nat (- i))) \<noteq> CHR ''0''" using True by (intro hd_digits_of) simp
  show ?thesis using True d h
    by (simp add: classify_def Itoa_def digits_of_nonempty digits_value_digits_of)
next
  case False
  let ?ds = "digits_of (nat i)"
  have hd: "is_digit (hd ?ds)" by (rule hd_digits_of_is_digit)
  then have 1: "hd ?ds \<noteq> CHR ''-''" and 2: "?ds \<noteq> ''null''"
    by (auto simp: is_digit_def)
  have d: "list_all is_digit ?ds"
    using digits_of_digits[of "nat i"] by (simp add: list_all_iff)
  have h: "hd ?ds \<noteq> CHR ''0'' \<or> length ?ds = 1"
  proof (cases "nat i = 0")
    case True
    then show ?thesis by (simp add: digits_of_zero)
  next
    case False
    then show ?thesis using hd_digits_of by blast
  qed
  show ?thesis using False 1 2 d h
    by (auto simp: classify_def Itoa_def digits_of_nonempty digits_value_digits_of Let_def)
qed

lemma tokenize_plain:
  "list_all plain_char u \<Longrightarrow> tokenize w (u @ rest) = tokenize (w @ u) rest"
  by (induction u arbitrary: w) (auto simp: plain_char_def)

lemma tokenize_word_comma:
  assumes "list_all plain_char u" and "u \<noteq> []"
  shows "tokenize [] (u @ '','' @ rest) = Word u # Comma # tokenize [] rest"
  using assms by (simp add: tokenize_plain is_space_def flush_def)

lemma tokenize_word_close:
  assumes "list_all plain_char u" and "u \<noteq> []"
  shows "tokenize [] (u @ '']'') = [Word u, RBr]"
  using assms by (simp add: tokenize_plain is_space_def flush_def)

lemma elems_join_commas:
  assumes "ws \<noteq> []" and "\<forall>w \<in> set ws. list_all plain_char w \<and> w \<noteq> [] \<and> classify w = Some (f w)"
  shows "\<exists>ts. tokenize [] (join_commas ws @ '']'') = Word (hd ws) # ts
            \<and> elems (Word (hd ws) # ts) = Some (map f ws)"
  using assms
proof (induction ws rule: join_commas.induct)
  case 1
  then show ?case by simp
next
  case (2 x)
  then show ?case by (simp add: tokenize_word_close)
next
  case (3 x y ys)
  then obtain ts where ts: "tokenize [] (join_commas (y # ys) @ '']'') = Word y # ts"
    "elems (Word y # ts) = Some (map f (y # ys))" by auto
  have "tokenize [] (join_commas (x # y # ys) @ '']'')
      = Word x # Comma # Word y # ts"
    using 3(3) ts(1) tokenize_word_comma[of x "join_commas (y # ys) @ '']''"] by simp
  then show ?case using ts(2) 3(3) by simp
qed

lemma json_value_array:
  assumes "\<forall>w \<in> set ws. list_all plain_char w \<and> w \<noteq> [] \<and> classify w = Some (f w)"
  shows "json_value (''['' @ join_commas ws @ '']'') = Some (Some (map f ws))"
proof (cases "ws = []")
  case True
  then show ?thesis by (simp add: json_value_def is_space_def flush_def)
next
  case False
  from elems_join_commas[OF False assms] obtain ts where
    "tokenize [] (join_commas ws @ '']'') = Word (hd ws) # ts"
    "elems (Word (hd ws) # ts) = Some (map f ws)" by blast
  then show ?thesis by (simp add: json_value_def is_space_def flush_def)
qed

lemma Itoa_plain: "list_all plain_char (Itoa i) \<and> Itoa i \<noteq> []"
proof -
  have "list_all plain_char (digits_of n)" for n
    using digits_of_digits[of n] by (simp add: list_all_iff)
  then show ?thesis
    by (simp add: Itoa_def digits_of_nonempty plain_char_def is_space_def)
qed

lemma json_value_Marshal_ints:
  "json_value (Marshal_ints (Some xs)) = Some (Some (map (\<lambda>i. Lit (i < 0) (nat \<bar>i\<bar>)) xs))"
proof -
  have "json_value (''['' @ join_commas (map Itoa xs) @ '']'')
      = Some (Some (map (\<lambda>w. the (classify w)) (map Itoa xs)))"
    by (rule json_value_array) (auto simp: Itoa_plain classify_Itoa)
  then show ?thesis by (simp add: Marshal_ints_def classify_Itoa comp_def)
qed

lemma store_int_literals:
  assumes "\<forall>x \<in> set xs. - (2 ^ 63) \<le> x \<and> x \<le> 2 ^ 63 - 1"
  shows "store conv_int 0 init (map (\<lambda>i. Lit (i < 0) (nat \<bar>i\<bar>)) xs) = Some xs"
  using assms by (induction xs arbitrary: init) (auto simp: conv_int_def Let_def)

lemma store_uint_literals:
  assumes "\<forall>x \<in> set xs. 0 \<le> x \<and> x < 2 ^ 64"
  shows "store conv_uint 0 init (map (\<lambda>i. Lit (i < 0) (nat \<bar>i\<bar>)) xs) = Some (map word_of_int xs)"
  using assms
  by (induction xs arbitrary: init) (auto simp: conv_uint_def Let_def nat_less_iff)

lemma Unmarshal_ints_Marshal_ints:
  assumes "\<forall>x \<in> set xs. - (2 ^ 63) \<le> x \<and> x \<le> 2 ^ 63 - 1"
  shows "Unmarshal_ints init (Marshal_ints (Some xs)) = Inr (Some xs)"
  by (simp add: Unmarshal_ints_def json_value_Marshal_ints store_int_literals[OF assms])

lemma Unmarshal_uints_Marshal_ints:
  assumes "\<forall>x \<in> set xs. 0 \<le> x \<and> x < 2 ^ 64"
  shows "Unmarshal_uints init (Marshal_ints (Some xs)) = Inr (Some (map word_of_int xs))"
  by (simp add: Unmarshal_uints_def json_value_Marshal_ints store_uint_literals[OF assms])

lemma AcceptStatus_appends:
  assumes "map_of (Header rq) AcceptStatusHeader = Some (Marshal_ints (Some xs) # vs)"
    and "\<forall>x \<in> set xs. - (2 ^ 63) \<le> x \<and> x \<le> 2 ^ 63 - 1"
  shows "AcceptStatus statusCodes rq
    = (Returns None, rq\<lparr>Header := AList.update AcceptStatusHeader
                         [Marshal_ints (Some (xs @ statusCodes))] (Header rq)\<rparr>)"
  using assms(1)
  by (simp add: AcceptStatus_def Unmarshal_ints_Marshal_ints[OF assms(2)] append_slice_def)

lemma AcceptStatus_first:
  assumes "map_of (Header rq) AcceptStatusHeader = None"
  shows "AcceptStatus statusCodes rq
    = (Returns None, rq\<lparr>Header := AList.update AcceptStatusHeader
                         [Marshal_ints (Some (200 # statusCodes))] (Header rq)\<rparr>)"
  using assms by (simp add: AcceptStatus_def append_slice_def)

lemma parseRequestHeaders_reads_marshalled:
  assumes "parseRequestHeaders c rq = (Returns (d, e), rq')"
    and "map_of (Header rq) AcceptStatusHeader = Some (Marshal_ints (Some xs) # vs)"
    and "\<forall>x \<in> set xs. 0 \<le> x \<and> x < 2 ^ 64"
  shows "d_acceptableStatusCodes d = map word_of_int xs"
  using parseRequestHeaders_acceptStatus[OF assms(1,2)]
  by (simp add: parse_acceptStatus_def Unmarshal_uints_Marshal_ints[OF assms(3)])

text \<open>
  Accumulation in general: on a request without the header, two applications with any
  status codes that fit an \<open>int\<close> and are not negative leave the engine with the default
  200 followed by the codes of the first and then of the second application.
\<close>

lemma AcceptStatus_accumulates:
  assumes "map_of (Header rq) AcceptStatusHeader = None"
    and "\<forall>x \<in> set (cs1 @ cs2). 0 \<le> x \<and> x \<le> 2 ^ 63 - 1"
  shows "\<exists>rq1 rq2.
      AcceptStatus cs1 rq = (Returns None, rq1)
    \<and> AcceptStatus cs2 rq1 = (Returns None, rq2)
    \<and> (\<forall>c d e rq'. parseRequestHeaders c rq2 = (Returns (d, e), rq')
           \<longrightarrow> d_acceptableStatusCodes d = map word_of_int (200 # cs1 @ cs2))"
proof -
  let ?rq1 = "rq\<lparr>Header := AList.update AcceptStatusHeader
                  [Marshal_ints (Some (200 # cs1))] (Header rq)\<rparr>"
  let ?rq2 = "?rq1\<lparr>Header := AList.update AcceptStatusHeader
                  [Marshal_ints (Some ((200 # cs1) @ cs2))] (Header ?rq1)\<rparr>"
  have m1: "map_of (Header ?rq1) AcceptStatusHeader = Some (Marshal_ints (Some (200 # cs1)) # [])"
    by (simp add: AList.update_conv')
  have r1: "\<forall>x \<in> set (200 # cs1). - (2 ^ 63) \<le> x \<and> x \<le> 2 ^ 63 - 1"
    using assms(2) by force
  have m2: "map_of (Header ?rq2) AcceptStatusHeader
      = Some (Marshal_ints (Some (200 # cs1 @ cs2)) # [])"
    by (simp add: AList.update_conv')
  have r2: "\<forall>x \<in> set (200 # cs1 @ cs2). 0 \<le> x \<and> x < 2 ^ 64"
    using assms(2) by force
  have p: "d_acceptableStatusCodes d = map word_of_int (200 # cs1 @ cs2)"
    if "parseRequestHeaders c ?rq2 = (Returns (d, e), rq')" for c :: "'a client" and d e rq'
    by (rule parseRequestHeaders_reads_marshalled[OF that m2 r2])
  show ?thesis
    using AcceptStatus_first[OF assms(1), of cs1] AcceptStatus_appends[OF m1 r1, of cs2] p
    by blast
qed

end
